theory Spec2Isabelle
  imports Main "HOL-Library.AList"
begin

section \<open>JavaScript values\<close>

text \<open>
  The utility classes of the test suite (\<^verbatim>\<open>ErrorHandler\<close>, \<^verbatim>\<open>PerformanceMonitor\<close>,
  \<^verbatim>\<open>TestDataManager\<close>) and the API commands work on untyped JavaScript values. The part of
  the value space the modelled functions look at is: \<^verbatim>\<open>undefined\<close>, \<^verbatim>\<open>null\<close>,
  booleans, whole numbers, \<^verbatim>\<open>NaN\<close>, strings, arrays, plain objects, the native functions
  that a plain object inherits from \<^verbatim>\<open>Object.prototype\<close>, and \<^verbatim>\<open>Object.prototype\<close> itself. A
  plain object is the list of its own properties in insertion order (the order of
  \<^verbatim>\<open>Object.keys\<close>); its prototype is \<^verbatim>\<open>Object.prototype\<close>. \<open>JNum n\<close> is the number
  \<open>n\<close>: a whole number of at most 15 significant digits. Fractional numbers, the
  infinities and symbols are not modelled.
\<close>

datatype jsval =
    JUndefined
  | JNull
  | JBool bool
  | JNum int
  | JNaN
  | JStr string
  | JArr "jsval list"
  | JObj "(string \<times> jsval) list"
  | JFun string
  | JObjectPrototype

type_synonym jsobj = "(string \<times> jsval) list"

text \<open>Truthiness, as \<^verbatim>\<open>if (v)\<close>, \<^verbatim>\<open>!v\<close> and \<^verbatim>\<open>a || b\<close> see it.\<close>

fun truthy :: "jsval \<Rightarrow> bool" where
  "truthy JUndefined = False"
| "truthy JNull = False"
| "truthy (JBool b) = b"
| "truthy (JNum n) = (n \<noteq> 0)"
| "truthy JNaN = False"
| "truthy (JStr s) = (s \<noteq> [])"
| "truthy (JArr vs) = True"
| "truthy (JObj kvs) = True"
| "truthy (JFun name) = True"
| "truthy JObjectPrototype = True"

text \<open>The \<^verbatim>\<open>typeof\<close> operator.\<close>

fun typeof :: "jsval \<Rightarrow> string" where
  "typeof JUndefined = ''undefined''"
| "typeof JNull = ''object''"
| "typeof (JBool b) = ''boolean''"
| "typeof (JNum n) = ''number''"
| "typeof JNaN = ''number''"
| "typeof (JStr s) = ''string''"
| "typeof (JArr vs) = ''object''"
| "typeof (JObj kvs) = ''object''"
| "typeof (JFun name) = ''function''"
| "typeof JObjectPrototype = ''object''"

text \<open>Decimal rendering of a number, as a template literal \<^verbatim>\<open>`${n}`\<close> prints it.\<close>

definition digit_char :: "nat \<Rightarrow> char" where
  "digit_char d = ''0123456789'' ! d"

function show_nat :: "nat \<Rightarrow> string" where
  "show_nat n = (if n < 10 then [digit_char n] else show_nat (n div 10) @ [digit_char (n mod 10)])"
  by pat_completeness auto
termination
  by (relation "measure id") auto

declare show_nat.simps [simp del]

definition show_int :: "int \<Rightarrow> string" where
  "show_int i = (if i < 0 then CHR ''-'' # show_nat (nat (- i)) else show_nat (nat i))"

text \<open>
  \<^verbatim>\<open>Number.prototype.toString\<close>: a number below \<open>10\<^sup>2\<^sup>1\<close> in magnitude prints all its
  digits; from \<open>10\<^sup>2\<^sup>1\<close> on it prints in exponent form, its significant digits (trailing
  zeros dropped) with a point after the first and the decimal exponent, as in
  \<^verbatim>\<open>1.5e+21\<close>.
\<close>

definition show_exponent :: "nat \<Rightarrow> string" where
  "show_exponent n =
     (let digits = show_nat n;
          significant = rev (dropWhile (\<lambda>c. c = CHR ''0'') (rev digits));
          mantissa = (case significant of
                        [] \<Rightarrow> ''0''
                      | [d] \<Rightarrow> [d]
                      | d # ds \<Rightarrow> d # CHR ''.'' # ds)
      in mantissa @ ''e+'' @ show_nat (length digits - 1))"

definition show_number :: "int \<Rightarrow> string" where
  "show_number i =
     (if \<bar>i\<bar> < 10 ^ 21 then show_int i
      else if i < 0 then CHR ''-'' # show_exponent (nat (- i))
      else show_exponent (nat i))"

text \<open>\<^verbatim>\<open>Array.prototype.join\<close> on strings.\<close>

fun join :: "string \<Rightarrow> string list \<Rightarrow> string" where
  "join sep [] = []"
| "join sep [x] = x"
| "join sep (x # y # ys) = x @ sep @ join sep (y # ys)"

text \<open>
  \<^verbatim>\<open>ToString\<close>: what a template literal prints for a value and what a value becomes when
  it is used as a property key. An array prints its elements joined by commas, with nothing
  for an element that is \<^verbatim>\<open>undefined\<close> or \<^verbatim>\<open>null\<close>; an object prints through
  \<^verbatim>\<open>Object.prototype.toString\<close>, a native function as its source text.
\<close>

fun to_string :: "jsval \<Rightarrow> string" where
  "to_string JUndefined = ''undefined''"
| "to_string JNull = ''null''"
| "to_string (JBool b) = (if b then ''true'' else ''false'')"
| "to_string (JNum n) = show_number n"
| "to_string JNaN = ''NaN''"
| "to_string (JStr s) = s"
| "to_string (JArr vs) =
     join '','' (map (\<lambda>v. if v = JUndefined \<or> v = JNull then [] else to_string v) vs)"
| "to_string (JObj kvs) = ''[object Object]''"
| "to_string (JFun name) = ''function '' @ name @ ''() { [native code] }''"
| "to_string JObjectPrototype = ''[object Object]''"

text \<open>
  The members every plain object inherits from \<^verbatim>\<open>Object.prototype\<close>: its methods,
  \<^verbatim>\<open>constructor\<close> (the function \<^verbatim>\<open>Object\<close>) and the accessor \<^verbatim>\<open>__proto__\<close>, which
  reads as the prototype.
\<close>

definition object_prototype_methods :: "string list" where
  "object_prototype_methods =
     [''__defineGetter__'', ''__defineSetter__'', ''hasOwnProperty'', ''__lookupGetter__'',
      ''__lookupSetter__'', ''isPrototypeOf'', ''propertyIsEnumerable'', ''toString'',
      ''valueOf'', ''toLocaleString'']"

definition inherited :: "string \<Rightarrow> jsval" where
  "inherited k =
     (if k = ''constructor'' then JFun ''Object''
      else if k \<in> set object_prototype_methods then JFun k
      else if k = ''__proto__'' then JObjectPrototype
      else JUndefined)"

text \<open>
  Reading a property \<^verbatim>\<open>v[k]\<close>. A plain object answers with its own property, else with
  what it inherits. On the other values the code only reads the keys \<^verbatim>\<open>data\<close>,
  \<^verbatim>\<open>token\<close>, \<^verbatim>\<open>authorization\<close>, \<^verbatim>\<open>url\<close> and \<^verbatim>\<open>message\<close>, which a boolean, a
  number, a string, an array or a native function does not have. Reading a property of
  \<^verbatim>\<open>undefined\<close> or \<^verbatim>\<open>null\<close> raises a \<^verbatim>\<open>TypeError\<close>, which the callers below check for
  before they read.
\<close>

fun js_get :: "jsval \<Rightarrow> string \<Rightarrow> jsval" where
  "js_get (JObj kvs) k = (case map_of kvs k of None \<Rightarrow> inherited k | Some v \<Rightarrow> v)"
| "js_get JObjectPrototype k = (if k = ''__proto__'' then JNull else inherited k)"
| "js_get v k = JUndefined"

text \<open>\<^verbatim>\<open>a || b\<close> on values.\<close>

definition js_or :: "jsval \<Rightarrow> jsval \<Rightarrow> jsval" where
  "js_or a b = (if truthy a then a else b)"

text \<open>
  \<^verbatim>\<open>v + 1\<close>: a number, \<^verbatim>\<open>null\<close> or a boolean is added to as a number; a string, and an
  array, object or function through its string, has \<^verbatim>\<open>1\<close> appended.
\<close>

fun js_plus_one :: "jsval \<Rightarrow> jsval" where
  "js_plus_one JUndefined = JNaN"
| "js_plus_one JNull = JNum 1"
| "js_plus_one (JBool b) = JNum (if b then 2 else 1)"
| "js_plus_one (JNum n) = JNum (n + 1)"
| "js_plus_one JNaN = JNaN"
| "js_plus_one (JStr s) = JStr (s @ ''1'')"
| "js_plus_one (JArr vs) = JStr (to_string (JArr vs) @ ''1'')"
| "js_plus_one (JObj kvs) = JStr (to_string (JObj kvs) @ ''1'')"
| "js_plus_one (JFun name) = JStr (to_string (JFun name) @ ''1'')"
| "js_plus_one JObjectPrototype = JStr (to_string JObjectPrototype @ ''1'')"

text \<open>
  \<^verbatim>\<open>ToNumber\<close>, with \<open>None\<close> for \<^verbatim>\<open>NaN\<close>; an array converts through its string, an
  object or a function to \<^verbatim>\<open>NaN\<close>. A string is trimmed of white space; the
  empty string is 0, a string of decimal digits with an optional sign is that number, any
  other string is \<^verbatim>\<open>NaN\<close> (strings that write a number with a radix prefix, a fraction or
  an exponent are not modelled, as the numbers they may denote are not).
\<close>

definition is_space :: "char \<Rightarrow> bool" where
  "is_space c = (c \<in> set [CHR '' '', CHR 0x09, CHR 0x0A, CHR 0x0B, CHR 0x0C, CHR 0x0D])"

definition trim :: "string \<Rightarrow> string" where
  "trim s = rev (dropWhile is_space (rev (dropWhile is_space s)))"

definition digit_value :: "char \<Rightarrow> nat option" where
  "digit_value c =
     (if c \<in> set ''0123456789''
      then Some (length (takeWhile (\<lambda>d. d \<noteq> c) ''0123456789'')) else None)"

fun digits_value :: "nat \<Rightarrow> string \<Rightarrow> nat option" where
  "digits_value acc [] = Some acc"
| "digits_value acc (c # cs) =
     (case digit_value c of None \<Rightarrow> None | Some d \<Rightarrow> digits_value (10 * acc + d) cs)"

definition string_to_number :: "string \<Rightarrow> int option" where
  "string_to_number s =
     (case trim s of
        [] \<Rightarrow> Some 0
      | c # cs \<Rightarrow>
          if c = CHR ''-'' then (if cs = [] then None else map_option (\<lambda>n. - int n) (digits_value 0 cs))
          else if c = CHR ''+'' then (if cs = [] then None else map_option int (digits_value 0 cs))
          else map_option int (digits_value 0 (c # cs)))"

fun to_number :: "jsval \<Rightarrow> int option" where
  "to_number JUndefined = None"
| "to_number JNull = Some 0"
| "to_number (JBool b) = Some (if b then 1 else 0)"
| "to_number (JNum n) = Some n"
| "to_number JNaN = None"
| "to_number (JStr s) = string_to_number s"
| "to_number (JArr vs) = string_to_number (to_string (JArr vs))"
| "to_number (JObj kvs) = None"
| "to_number (JFun name) = None"
| "to_number JObjectPrototype = None"

text \<open>\<^verbatim>\<open>n >= v\<close> for a number \<open>n\<close>: false when \<open>v\<close> converts to \<^verbatim>\<open>NaN\<close>.\<close>

definition js_ge :: "int \<Rightarrow> jsval \<Rightarrow> bool" where
  "js_ge n v = (case to_number v of None \<Rightarrow> False | Some limit \<Rightarrow> n \<ge> limit)"

text \<open>Exceptions and promise rejections.\<close>

datatype js_error = Error string | TypeError string

section \<open>TestDataManager\<close>

subsection \<open>generateEmployeeData\<close>

text \<open>
  \<^verbatim>\<open>generateEmployeeData\<close> reads the clock once (\<^verbatim>\<open>Date.now()\<close>, milliseconds since the
  epoch) and builds the record from that reading; the reading is the parameter here.
\<close>

definition generateEmployeeData :: "nat \<Rightarrow> jsval" where
  "generateEmployeeData timestamp = JObj
    [(''firstName'', JStr (''Test'' @ show_nat timestamp)),
     (''lastName'', JStr ''Employee''),
     (''middleName'', JStr ''M''),
     (''employeeId'', JStr (''EMP'' @ show_nat timestamp)),
     (''otherId'', JStr (''OTH'' @ show_nat timestamp)),
     (''licenseNo'', JStr (''LIC'' @ show_nat timestamp)),
     (''licenseExpiryDate'', JStr ''2025-12-31''),
     (''ssnNumber'', JStr ''123-45-6789''),
     (''sinNumber'', JStr ''SIN123456''),
     (''nationalityId'', JNum 1),
     (''maritalStatus'', JStr ''Single''),
     (''dateOfBirth'', JStr ''1990-01-01''),
     (''gender'', JStr ''Male''),
     (''smoker'', JBool False),
     (''militaryService'', JStr ''No''),
     (''bloodType'', JStr ''O+''),
     (''addressStreet1'', JStr ''123 Test St''),
     (''addressStreet2'', JStr ''Apt 1A''),
     (''city'', JStr ''Test City''),
     (''stateProvince'', JStr ''TC''),
     (''zipCode'', JStr ''12345''),
     (''countryCode'', JStr ''US''),
     (''homeTelephone'', JStr ''555-123-4567''),
     (''mobile'', JStr ''555-987-6543''),
     (''workTelephone'', JStr ''555-555-5555''),
     (''workEmail'', JStr (''test.employee'' @ show_nat timestamp @ ''@company.com'')),
     (''otherEmail'', JStr (''test.employee'' @ show_nat timestamp @ ''.personal@gmail.com''))]"

text \<open>
  The \<^verbatim>\<open>employeeId\<close> values of a series of calls, given the clock reading each call
  made. Two calls within the same millisecond read the same value.
\<close>

definition employeeIds :: "nat list \<Rightarrow> jsval list" where
  "employeeIds readings = map (\<lambda>t. js_get (generateEmployeeData t) ''employeeId'') readings"

subsection \<open>validateTestData\<close>

text \<open>
  A regular expression object. \<^verbatim>\<open>test\<close> on an expression with the \<^verbatim>\<open>g\<close> or the
  \<^verbatim>\<open>y\<close> flag starts at the object's \<^verbatim>\<open>lastIndex\<close> and leaves there the end of the
  match, or 0 when there is none; without these flags it starts at 0 and leaves
  \<^verbatim>\<open>lastIndex\<close> alone. \<open>rx_exec i s\<close> is the end of the match found in \<open>s\<close> when the
  search starts at \<open>i\<close>, if there is one. Two schema entries may hold the same object, so
  the objects are named (\<open>rx_id\<close>) and the \<^verbatim>\<open>lastIndex\<close> of each is kept in a store.
\<close>

record regexp =
  rx_id :: nat
  rx_global_or_sticky :: bool
  rx_exec :: "nat \<Rightarrow> string \<Rightarrow> nat option"

type_synonym last_indices = "nat \<Rightarrow> nat"

definition regexp_test :: "regexp \<Rightarrow> last_indices \<Rightarrow> string \<Rightarrow> bool \<times> last_indices" where
  "regexp_test rx li s =
     (if rx_global_or_sticky rx
      then (case rx_exec rx (li (rx_id rx)) s of
              None \<Rightarrow> (False, li(rx_id rx := 0))
            | Some e \<Rightarrow> (True, li(rx_id rx := e)))
      else (rx_exec rx 0 s \<noteq> None, li))"

text \<open>
  One entry of a schema: \<^verbatim>\<open>{ required, type, pattern }\<close>. \<^verbatim>\<open>required\<close> is read for its
  truthiness; \<^verbatim>\<open>type\<close> is absent or a string (the empty string is falsy, so it switches the
  type check off); \<^verbatim>\<open>pattern\<close> is absent or a regular expression.
\<close>

record field_schema =
  required :: bool
  ftype :: "string option"
  pattern :: "regexp option"

type_synonym schema = "(string \<times> field_schema) list"

text \<open>
  The strings pushed onto \<^verbatim>\<open>errors\<close>, one constructor for each of the three
  \<^verbatim>\<open>errors.push\<close> calls; \<open>render\<close> is the template literal of the call.
\<close>

datatype violation =
    MissingRequired string
  | InvalidType string string string
  | InvalidFormat string string

fun render :: "violation \<Rightarrow> string" where
  "render (MissingRequired key) = ''Missing required field: '' @ key"
| "render (InvalidType key expected got) =
     ''Invalid type for '' @ key @ '': expected '' @ expected @ '', got '' @ got"
| "render (InvalidFormat key shown) = ''Invalid format for '' @ key @ '': '' @ shown"

text \<open>
  The body of the \<^verbatim>\<open>forEach\<close> callback: the three independent \<^verbatim>\<open>if\<close> statements for
  one key, each pushing onto \<^verbatim>\<open>errors\<close>. Its state is the \<^verbatim>\<open>errors\<close> array and the
  \<^verbatim>\<open>lastIndex\<close> store; \<^verbatim>\<open>pattern.test\<close> is only called when the two conditions before
  it hold. The key comes from \<^verbatim>\<open>Object.keys(schema)\<close>, so \<^verbatim>\<open>schema[key]\<close> is always
  there; \<^verbatim>\<open>data[key]\<close> is read from the data object as any property is.
\<close>

definition check_key ::
  "jsobj \<Rightarrow> schema \<Rightarrow> violation list \<times> last_indices \<Rightarrow> string \<Rightarrow> violation list \<times> last_indices"
  where
  "check_key data schema st key =
     (case map_of schema key of
        None \<Rightarrow> st
      | Some fs \<Rightarrow>
          (let v = js_get (JObj data) key;
               errors1 = (if required fs \<and> \<not> truthy v
                          then fst st @ [MissingRequired key] else fst st);
               errors2 = (case ftype fs of
                            None \<Rightarrow> errors1
                          | Some t \<Rightarrow>
                              if truthy v \<and> t \<noteq> [] \<and> typeof v \<noteq> t
                              then errors1 @ [InvalidType key t (typeof v)] else errors1)
           in (case pattern fs of
                 None \<Rightarrow> (errors2, snd st)
               | Some rx \<Rightarrow>
                   if truthy v
                   then (case regexp_test rx (snd st) (to_string v) of
                           (matched, li) \<Rightarrow>
                             (if \<not> matched then errors2 @ [InvalidFormat key (to_string v)]
                              else errors2, li))
                   else (errors2, snd st))))"

text \<open>
  The \<^verbatim>\<open>errors\<close> array, and the store, when the \<^verbatim>\<open>forEach\<close> over the schema's keys is
  done.
\<close>

definition validation_run :: "jsobj \<Rightarrow> schema \<Rightarrow> last_indices \<Rightarrow> violation list \<times> last_indices" where
  "validation_run data schema li = foldl (check_key data schema) ([], li) (map fst schema)"

definition validateTestData ::
  "jsobj \<Rightarrow> schema \<Rightarrow> last_indices \<Rightarrow> (js_error + jsval) \<times> last_indices" where
  "validateTestData data schema li =
     (let done = validation_run data schema li in
      (if length (fst done) > 0
       then Inl (Error (''Test data validation failed: '' @ join '', '' (map render (fst done))))
       else Inr (JBool True),
       snd done))"

text \<open>
  What the checks say about a single key, written from their description: a required key
  whose value is falsy is missing; a key whose value is truthy must have the schema's type,
  if the schema names one, and must pass the schema's pattern, if it has one. Then the
  violations of all keys, key after key, each key starting from the store the one before
  left.
\<close>

definition key_violations ::
  "jsobj \<Rightarrow> string \<Rightarrow> field_schema \<Rightarrow> last_indices \<Rightarrow> violation list \<times> last_indices" where
  "key_violations data key fs li =
     (let v = js_get (JObj data) key;
          missing = (if required fs \<and> \<not> truthy v then [MissingRequired key] else []);
          mistyped = (case ftype fs of
                        None \<Rightarrow> []
                      | Some t \<Rightarrow> if truthy v \<and> t \<noteq> [] \<and> typeof v \<noteq> t
                                 then [InvalidType key t (typeof v)] else []);
          tested = (case pattern fs of
                      None \<Rightarrow> (True, li)
                    | Some rx \<Rightarrow> if truthy v then regexp_test rx li (to_string v) else (True, li))
      in (missing @ mistyped @ (if fst tested then [] else [InvalidFormat key (to_string v)]),
          snd tested))"

fun all_violations ::
  "jsobj \<Rightarrow> schema \<Rightarrow> last_indices \<Rightarrow> string list \<Rightarrow> violation list \<times> last_indices" where
  "all_violations data schema li [] = ([], li)"
| "all_violations data schema li (key # keys) =
     (case map_of schema key of
        None \<Rightarrow> all_violations data schema li keys
      | Some fs \<Rightarrow>
          (case key_violations data key fs li of
             (found, li') \<Rightarrow>
               (case all_violations data schema li' keys of
                  (later, li'') \<Rightarrow> (found @ later, li''))))"

section \<open>ErrorHandler\<close>

text \<open>
  The handler's methods read the clock (\<^verbatim>\<open>new Date().toISOString()\<close> for the record's
  timestamp, \<^verbatim>\<open>Date.now()\<close> for the screenshot's name) and call the runner's commands
  \<^verbatim>\<open>cy.logInfo\<close>, \<^verbatim>\<open>cy.logError\<close> and \<^verbatim>\<open>cy.takeScreenshot\<close>. The clock's reading is
  a parameter; the commands are recorded, in the order they are called, as a list of
  events that each method returns beside its result and the handler's new state. An
  exception that nothing catches (thrown in a timer's callback, or in a promise's callback
  with no handler after it) is recorded as well.
\<close>

record clock =
  iso :: string
  now :: nat

datatype event =
    LogInfo string jsval
  | LogError string jsval
  | TakeScreenshot string
  | SetTimeout int
  | Invoke nat
  | Uncaught jsval
  | Unhandled js_error

record error_handler =
  errorLog :: "jsobj list"
  retryAttempts :: int
  retryDelay :: int
  errorThresholds :: jsobj

definition new_ErrorHandler :: error_handler where
  "new_ErrorHandler =
     \<lparr>errorLog = [], retryAttempts = 3, retryDelay = 1000,
      errorThresholds = [(''critical'', JNum 5), (''warning'', JNum 10), (''info'', JNum 20)]\<rparr>"

definition logError :: "error_handler \<Rightarrow> jsobj \<Rightarrow> error_handler \<times> event list" where
  "logError h error =
     (let h' = h\<lparr>errorLog := errorLog h @ [error]\<rparr>;
          errorCount = int (length (errorLog h'))
      in (h',
          if js_ge errorCount (js_get (JObj (errorThresholds h')) ''critical'')
          then [LogError ''Critical error threshold reached'' (JObj [(''errorCount'', JNum errorCount)])]
          else if js_ge errorCount (js_get (JObj (errorThresholds h')) ''warning'')
          then [LogError ''Warning error threshold reached'' (JObj [(''errorCount'', JNum errorCount)])]
          else []))"

subsection \<open>handleApiError\<close>

text \<open>
  A response object, with the fields the handler and the API commands read. The status is
  a number; the other fields are any value (a response without \<^verbatim>\<open>config\<close> has
  \<^verbatim>\<open>undefined\<close> there). Further fields are the record's extension.
\<close>

record cy_response =
  status :: int
  statusText :: jsval
  body :: jsval
  headers :: jsval
  config :: jsval
  data :: jsval

text \<open>Optional chaining \<^verbatim>\<open>v?.k\<close>.\<close>

definition opt_get :: "jsval \<Rightarrow> string \<Rightarrow> jsval" where
  "opt_get v k = (if v = JUndefined \<or> v = JNull then JUndefined else js_get v k)"

definition apiError :: "clock \<Rightarrow> 'a cy_response_scheme \<Rightarrow> string \<Rightarrow> jsobj" where
  "apiError clk response context =
     [(''type'', JStr ''ApiError''),
      (''status'', JNum (status response)),
      (''statusText'', statusText response),
      (''url'', opt_get (config response) ''url''),
      (''data'', data response),
      (''context'', JStr context),
      (''timestamp'', JStr (iso clk)),
      (''message'', JStr (''API error: '' @ show_number (status response) @ '' '' @
                          to_string (statusText response)))]"

definition handleApiError ::
  "clock \<Rightarrow> error_handler \<Rightarrow> 'a cy_response_scheme \<Rightarrow> string \<Rightarrow>
   (js_error + 'a cy_response_scheme) \<times> error_handler \<times> event list" where
  "handleApiError clk h response context =
     (if status response \<ge> 400
      then (let (h', logged) = logError h (apiError clk response context)
            in (Inl (Error (''API error: '' @ show_number (status response) @ '' '' @
                            to_string (statusText response))),
                h',
                logged @
                [LogError ''API error occurred'' (JObj (apiError clk response context)),
                 TakeScreenshot (''api_error_'' @ show_nat (now clk))]))
      else (Inr response, h, []))"

subsection \<open>getErrorStatistics\<close>

text \<open>
  \<^verbatim>\<open>counts[key] = (counts[key] || 0) + 1\<close> on an object of counters that starts as
  \<^verbatim>\<open>{}\<close>. The read goes through the prototype: for a key the object does not own but
  inherits, it finds the inherited member, which is truthy, and \<^verbatim>\<open>+ 1\<close> appends to its
  string. The write makes an own property (a key that is not there yet is appended, a key
  that is there keeps its place), except for \<^verbatim>\<open>__proto__\<close>, whose inherited setter drops a
  value that is not an object.
\<close>

definition bump :: "jsobj \<Rightarrow> string \<Rightarrow> jsobj" where
  "bump counts key =
     (let v = js_plus_one (js_or (js_get (JObj counts) key) (JNum 0))
      in if key = ''__proto__'' \<and> map_of counts key = None then counts
         else AList.update key v counts)"

record error_statistics =
  totalErrors :: nat
  errorTypes :: jsobj
  errorContexts :: jsobj
  recentErrors :: "jsobj list"

text \<open>
  The \<^verbatim>\<open>forEach\<close> over the log. \<^verbatim>\<open>error.type\<close> and \<^verbatim>\<open>error.context\<close> are used as
  property keys, so they are converted to strings; a record without a \<^verbatim>\<open>context\<close> (a
  \<^verbatim>\<open>RetryExhausted\<close> record has none) is counted under \<^verbatim>\<open>undefined\<close>.
\<close>

definition count_error :: "jsobj \<times> jsobj \<Rightarrow> jsobj \<Rightarrow> jsobj \<times> jsobj" where
  "count_error acc error =
     (bump (fst acc) (to_string (js_get (JObj error) ''type'')),
      bump (snd acc) (to_string (js_get (JObj error) ''context'')))"

definition getErrorStatistics :: "error_handler \<Rightarrow> error_statistics" where
  "getErrorStatistics h =
     (let counted = foldl count_error ([], []) (errorLog h)
      in \<lparr>totalErrors = length (errorLog h),
          errorTypes = fst counted,
          errorContexts = snd counted,
          recentErrors = drop (length (errorLog h) - 10) (errorLog h)\<rparr>)"

subsection \<open>setErrorThresholds, setRetryConfiguration\<close>

text \<open>
  Object spread \<^verbatim>\<open>{ ...a, ...b }\<close>: the properties of \<^verbatim>\<open>a\<close>, then each own property of
  \<^verbatim>\<open>b\<close> assigned in turn, whatever its value (a property whose value is \<^verbatim>\<open>undefined\<close> is
  copied like any other).
\<close>

definition spread :: "('k \<times> 'v) list \<Rightarrow> ('k \<times> 'v) list \<Rightarrow> ('k \<times> 'v) list" where
  "spread a b = foldl (\<lambda>acc kv. AList.update (fst kv) (snd kv) acc) a b"

definition setErrorThresholds :: "error_handler \<Rightarrow> jsobj \<Rightarrow> error_handler \<times> event list" where
  "setErrorThresholds h thresholds =
     (let h' = h\<lparr>errorThresholds := spread (errorThresholds h) thresholds\<rparr>
      in (h', [LogInfo ''Error thresholds updated'' (JObj (errorThresholds h'))]))"

definition setRetryConfiguration ::
  "error_handler \<Rightarrow> int \<Rightarrow> int \<Rightarrow> error_handler \<times> event list" where
  "setRetryConfiguration h attempts delay =
     (h\<lparr>retryAttempts := attempts, retryDelay := delay\<rparr>,
      [LogInfo ''Retry configuration updated''
         (JObj [(''attempts'', JNum attempts), (''delay'', JNum delay)])])"

subsection \<open>retryOperation\<close>

text \<open>
  The operation is a thunk; \<open>operation k\<close> is what its \<open>k\<close>-th call does. It returns a
  promise that is fulfilled with a result (\<open>Fulfils\<close>), rejected with some value
  (\<open>Rejects\<close>) or never settled (\<open>Hangs\<close>); or the call does not get as far as
  \<^verbatim>\<open>.then\<close>, because the operation throws or because what it returns has no \<^verbatim>\<open>then\<close>
  method (\<open>Throws\<close>, with the value thrown). \<open>name\<close> is \<^verbatim>\<open>operation.name\<close>.
  \<open>Invoke k\<close> records the \<open>k\<close>-th call of the operation, \<open>SetTimeout d\<close> the
  \<^verbatim>\<open>setTimeout(attempt, d)\<close> that schedules the next attempt.
\<close>

datatype 'r outcome = Fulfils 'r | Rejects jsval | Throws jsval | Hangs

text \<open>
  How the promise that \<^verbatim>\<open>retryOperation\<close> returns ends: resolved with the operation's
  result, rejected with the error \<^verbatim>\<open>retryOperation\<close> makes, rejected with a value that
  escaped from the first attempt, or never settled.
\<close>

datatype 'r settled = Resolved 'r | Failed js_error | Escaped jsval | Unsettled

definition attempt_started :: "nat \<Rightarrow> int \<Rightarrow> event list" where
  "attempt_started attempts maxRetries =
     [LogInfo (''Retry attempt '' @ show_nat attempts @ ''/'' @ show_number maxRetries) (JObj []),
      Invoke attempts]"

definition attempt_succeeded :: "nat \<Rightarrow> event list" where
  "attempt_succeeded attempts =
     [LogInfo ''Operation succeeded on retry'' (JObj [(''attempts'', JNum (int attempts))])]"

definition attempt_retrying :: "nat \<Rightarrow> int \<Rightarrow> event list" where
  "attempt_retrying attempts delay =
     [LogInfo (''Retry attempt '' @ show_nat attempts @ '' failed, retrying in '' @
               show_number delay @ ''ms'') (JObj []),
      SetTimeout delay]"

text \<open>The record of an exhausted retry; \<open>error\<close> is the value of the last rejection.\<close>

definition retryError :: "clock \<Rightarrow> string \<Rightarrow> nat \<Rightarrow> int \<Rightarrow> jsval \<Rightarrow> jsobj" where
  "retryError clk name attempts maxRetries error =
     [(''type'', JStr ''RetryExhausted''),
      (''operation'', JStr (if name = [] then ''unknown'' else name)),
      (''attempts'', JNum (int attempts)),
      (''maxRetries'', JNum maxRetries),
      (''originalError'', js_get error ''message''),
      (''timestamp'', JStr (iso clk))]"

text \<open>
  The branch \<^verbatim>\<open>attempts >= maxRetries\<close> of the rejection handler. Building the record
  reads \<^verbatim>\<open>error.message\<close>, which throws when the promise was rejected with
  \<^verbatim>\<open>undefined\<close> or \<^verbatim>\<open>null\<close>: the handler then ends there, nothing is logged and the
  returned promise is never settled.
\<close>

definition retries_exhausted ::
  "clock \<Rightarrow> error_handler \<Rightarrow> string \<Rightarrow> nat \<Rightarrow> int \<Rightarrow> jsval \<Rightarrow>
   'r settled \<times> error_handler \<times> event list" where
  "retries_exhausted clk h name attempts maxRetries error =
     (if error = JUndefined \<or> error = JNull
      then (Unsettled, h,
            [Unhandled (TypeError (''Cannot read properties of '' @ to_string error @
                                     '' (reading message)''))])
      else (let (h', logged) = logError h (retryError clk name attempts maxRetries error)
            in (Failed (Error (''Operation failed after '' @ show_number maxRetries @
                               '' attempts: '' @ to_string (js_get error ''message''))),
                h',
                logged @
                [LogError ''Retry attempts exhausted''
                   (JObj (retryError clk name attempts maxRetries error)),
                 TakeScreenshot (''retry_exhausted_'' @ show_nat (now clk))])))"

text \<open>
  The inner function \<^verbatim>\<open>attempt\<close>; its argument \<open>attempts\<close> is the counter's value when
  it is entered, before \<^verbatim>\<open>attempts++\<close>. The first attempt runs inside the promise's
  executor, which turns an exception into a rejection with the value thrown; the later
  attempts run as timer callbacks, where an exception is caught by nothing.
\<close>

function attempt ::
  "clock \<Rightarrow> string \<Rightarrow> (nat \<Rightarrow> 'r outcome) \<Rightarrow> int \<Rightarrow> int \<Rightarrow> nat \<Rightarrow> error_handler \<Rightarrow>
   'r settled \<times> error_handler \<times> event list" where
  "attempt clk name operation maxRetries delay attempts h =
     (case operation (Suc attempts) of
        Fulfils result \<Rightarrow>
          (Resolved result, h,
           attempt_started (Suc attempts) maxRetries @ attempt_succeeded (Suc attempts))
      | Throws thrown \<Rightarrow>
          if attempts = 0
          then (Escaped thrown, h, attempt_started (Suc attempts) maxRetries)
          else (Unsettled, h, attempt_started (Suc attempts) maxRetries @ [Uncaught thrown])
      | Hangs \<Rightarrow> (Unsettled, h, attempt_started (Suc attempts) maxRetries)
      | Rejects error \<Rightarrow>
          if int (Suc attempts) \<ge> maxRetries
          then (case retries_exhausted clk h name (Suc attempts) maxRetries error of
                  (result, h', events) \<Rightarrow>
                    (result, h', attempt_started (Suc attempts) maxRetries @ events))
          else (case attempt clk name operation maxRetries delay (Suc attempts) h of
                  (result, h', events) \<Rightarrow>
                    (result, h',
                     attempt_started (Suc attempts) maxRetries @
                     attempt_retrying (Suc attempts) delay @ events)))"
  by pat_completeness auto
termination
  by (relation "measure (\<lambda>(clk, name, operation, maxRetries, delay, attempts, h).
                   nat (maxRetries - int attempts))") auto

declare attempt.simps [simp del]

definition retryOperation ::
  "clock \<Rightarrow> error_handler \<Rightarrow> string \<Rightarrow> (nat \<Rightarrow> 'r outcome) \<Rightarrow> int \<Rightarrow> int \<Rightarrow>
   'r settled \<times> error_handler \<times> event list" where
  "retryOperation clk h name operation maxRetries delay =
     attempt clk name operation maxRetries delay 0 h"

text \<open>The call with both defaults, \<^verbatim>\<open>this.retryAttempts\<close> and \<^verbatim>\<open>this.retryDelay\<close>.\<close>

definition retryOperation_default ::
  "clock \<Rightarrow> error_handler \<Rightarrow> string \<Rightarrow> (nat \<Rightarrow> 'r outcome) \<Rightarrow>
   'r settled \<times> error_handler \<times> event list" where
  "retryOperation_default clk h name operation =
     retryOperation clk h name operation (retryAttempts h) (retryDelay h)"

text \<open>How often the operation was called, read off the events.\<close>

fun is_Invoke :: "event \<Rightarrow> bool" where
  "is_Invoke (Invoke k) = True"
| "is_Invoke e = False"

definition invocations :: "event list \<Rightarrow> nat" where
  "invocations events = length (filter is_Invoke events)"

text \<open>
  The events of an attempt that fails and is retried: the attempt's log line, the call, the
  retry log line and the timer for the next attempt.
\<close>

definition failed_attempt :: "int \<Rightarrow> int \<Rightarrow> nat \<Rightarrow> event list" where
  "failed_attempt maxRetries delay k = attempt_started k maxRetries @ attempt_retrying k delay"

text \<open>
  What a run of \<open>attempt\<close> entered with the counter at \<open>a\<close> does: the promises of calls
  \<open>a + 1\<close> to \<open>m - 1\<close> are rejected and the calls retried, call \<open>m\<close> is the last one, and
  \<open>rest\<close> is what follows it.
\<close>

definition attempt_run ::
  "clock \<Rightarrow> string \<Rightarrow> (nat \<Rightarrow> 'r outcome) \<Rightarrow> int \<Rightarrow> int \<Rightarrow> nat \<Rightarrow> error_handler \<Rightarrow>
   nat \<Rightarrow> event list \<Rightarrow> bool" where
  "attempt_run clk name operation n d a h m rest \<longleftrightarrow>
     a < m \<and> (int m \<le> n \<or> m = Suc a) \<and>
     (\<forall>k. a < k \<and> k < m \<longrightarrow> (\<exists>e. operation k = Rejects e)) \<and>
     snd (snd (attempt clk name operation n d a h)) =
       concat (map (failed_attempt n d) [Suc a..<m]) @ attempt_started m n @ rest \<and>
     (\<forall>e\<in>set rest. \<not> is_Invoke e) \<and>
     (case operation m of
        Fulfils result \<Rightarrow>
          fst (attempt clk name operation n d a h) = Resolved result \<and>
          fst (snd (attempt clk name operation n d a h)) = h
      | Rejects error \<Rightarrow>
          int m \<ge> n \<and>
          (error \<noteq> JUndefined \<and> error \<noteq> JNull \<longrightarrow>
             fst (attempt clk name operation n d a h) =
               Failed (Error (''Operation failed after '' @ show_number n @ '' attempts: '' @
                              to_string (js_get error ''message''))) \<and>
             errorLog (fst (snd (attempt clk name operation n d a h))) =
               errorLog h @ [retryError clk name m n error])
      | Throws thrown \<Rightarrow> True
      | Hangs \<Rightarrow> True)"

section \<open>PerformanceMonitor\<close>

record performance_metrics =
  responseTimes :: "jsval list"
  pageLoadTimes :: "jsval list"
  apiCallTimes :: "jsval list"
  memoryUsage :: "jsval list"
  errors :: "jsval list"

record performance_monitor =
  metrics :: performance_metrics
  thresholds :: jsobj

definition new_PerformanceMonitor :: performance_monitor where
  "new_PerformanceMonitor =
     \<lparr>metrics = \<lparr>responseTimes = [], pageLoadTimes = [], apiCallTimes = [],
                  memoryUsage = [], errors = []\<rparr>,
      thresholds = [(''pageLoadTime'', JNum 5000), (''apiResponseTime'', JNum 3000),
                    (''loginTime'', JNum 10000), (''memoryUsage'', JNum (100 * 1024 * 1024))]\<rparr>"

definition setThresholds :: "performance_monitor \<Rightarrow> jsobj \<Rightarrow> performance_monitor \<times> event list" where
  "setThresholds m newThresholds =
     (let m' = m\<lparr>thresholds := spread (thresholds m) newThresholds\<rparr>
      in (m', [LogInfo ''Performance thresholds updated'' (JObj (thresholds m'))]))"

text \<open>A series of calls of either setter, each with its own override object.\<close>

definition setErrorThresholds_all :: "error_handler \<Rightarrow> jsobj list \<Rightarrow> error_handler" where
  "setErrorThresholds_all h overrides = foldl (\<lambda>h' o'. fst (setErrorThresholds h' o')) h overrides"

definition setThresholds_all :: "performance_monitor \<Rightarrow> jsobj list \<Rightarrow> performance_monitor" where
  "setThresholds_all m overrides = foldl (\<lambda>m' o'. fst (setThresholds m' o')) m overrides"

subsection \<open>monitorConcurrentRequests\<close>

text \<open>
  \<open>requests\<close> is the list of request factories, each named by a label. Calling a factory
  starts its operation (\<open>Started f\<close>) and returns a promise that is still pending: the
  operation is asynchronous, so its promise settles in a later turn of the event loop, never
  during the synchronous \<^verbatim>\<open>for\<close> loop that called the factory. The loop body calls every
  factory of the batch and then hands \<^verbatim>\<open>Promise.all\<close> of the batch to \<^verbatim>\<open>cy.wrap\<close>, which
  only puts a command on the runner's queue. The state of the loop is the events so far and
  the queue. \<^verbatim>\<open>i += maxConcurrent\<close> does not advance when \<open>maxConcurrent = 0\<close>, so the
  loop may run forever: not returning is the value \<open>None\<close>.
\<close>

datatype 'f request_event = Started 'f | Settled 'f

partial_function (option) start_batches ::
  "'f list \<Rightarrow> nat \<Rightarrow> nat \<Rightarrow> 'f request_event list \<times> 'f list list \<Rightarrow>
   ('f request_event list \<times> 'f list list) option" where
  "start_batches requests maxConcurrent i st =
     (if i < length requests
      then start_batches requests maxConcurrent (i + maxConcurrent)
             (fst st @ map Started (take maxConcurrent (drop i requests)),
              snd st @ [take maxConcurrent (drop i requests)])
      else Some st)"

text \<open>
  After the function has returned, the runner takes the queued commands one at a time; the
  command of a batch is done when every promise of the batch is settled (\<open>Settled f\<close> is
  recorded there, the latest moment at which \<open>f\<close> can have settled), and its callback
  pushes the batch's results. \<open>value f\<close> is what the promise of \<open>f\<close> is fulfilled with.
\<close>

definition await_batch ::
  "('f \<Rightarrow> 'r) \<Rightarrow> 'f request_event list \<times> 'r list \<Rightarrow> 'f list \<Rightarrow>
   'f request_event list \<times> 'r list" where
  "await_batch value st batch = (fst st @ map Settled batch, snd st @ map value batch)"

record ('f, 'r) concurrent_run =
  results :: "'r list"
  batches :: "'f list list"
  trace :: "'f request_event list"

text \<open>
  The run of \<^verbatim>\<open>monitorConcurrentRequests\<close> and of the commands it queued. The two times
  it reports are differences of clock readings and are left out.
\<close>

definition monitorConcurrentRequests ::
  "('f \<Rightarrow> 'r) \<Rightarrow> 'f list \<Rightarrow> nat \<Rightarrow> ('f, 'r) concurrent_run option" where
  "monitorConcurrentRequests value requests maxConcurrent =
     (case start_batches requests maxConcurrent 0 ([], []) of
        None \<Rightarrow> None
      | Some (started, queue) \<Rightarrow>
          (let done = foldl (await_batch value) (started, []) queue
           in Some \<lparr>results = snd done, batches = queue, trace = fst done\<rparr>))"

text \<open>The place of the first occurrence of an event in a trace.\<close>

definition position :: "'a \<Rightarrow> 'a list \<Rightarrow> nat" where
  "position x xs = length (takeWhile (\<lambda>y. y \<noteq> x) xs)"

section \<open>API commands\<close>

text \<open>
  \<^verbatim>\<open>cy.request\<close> sends a request to the application under test. The application is a
  parameter: \<open>srv s req\<close> is its answer to \<open>req\<close> in state \<open>s\<close>, either a response or
  a failure to get one, and its next state. The commands' calls of \<^verbatim>\<open>cy.log\<close>,
  \<^verbatim>\<open>cy.task('log', ...)\<close> and \<^verbatim>\<open>cy.request\<close> are recorded in order.
\<close>

record request =
  req_method :: string
  req_url :: string
  req_headers :: "(string \<times> string) list"
  req_body :: "jsval option"
  req_failOnStatusCode :: bool
  req_timeout :: "int option"

datatype api_event = CyLog string | TaskLog string | Request request

type_synonym 's server = "'s \<Rightarrow> request \<Rightarrow> (js_error + cy_response) \<times> 's"

text \<open>
  With \<^verbatim>\<open>failOnStatusCode\<close> set, the runner fails the command on a status outside 2xx and
  3xx; otherwise every response is passed on.
\<close>

definition cy_request ::
  "'s server \<Rightarrow> 's \<Rightarrow> request \<Rightarrow> (js_error + cy_response) \<times> 's \<times> api_event list" where
  "cy_request srv s req =
     (case srv s req of
        (Inl e, s') \<Rightarrow> (Inl e, s', [Request req])
      | (Inr response, s') \<Rightarrow>
          if req_failOnStatusCode req \<and> \<not> (200 \<le> status response \<and> status response < 400)
          then (Inl (Error (''cy.request() failed on status code '' @ show_number (status response))),
                s', [Request req])
          else (Inr response, s', [Request req]))"

subsection \<open>apiLogin\<close>

record login_result =
  token :: jsval
  response :: cy_response

text \<open>\<open>apiBaseUrl\<close> is \<^verbatim>\<open>Cypress.env('apiBaseUrl')\<close>.\<close>

definition login_request :: "jsval \<Rightarrow> string \<Rightarrow> string \<Rightarrow> request" where
  "login_request apiBaseUrl username password =
     \<lparr>req_method = ''POST'',
      req_url = to_string (js_or apiBaseUrl
                  (JStr ''https://opensource-demo.orangehrmlive.com/web/index.php/api'')) @
                ''/auth/login'',
      req_headers = [(''Content-Type'', ''application/json'')],
      req_body = Some (JObj [(''username'', JStr username), (''password'', JStr password)]),
      req_failOnStatusCode = False,
      req_timeout = None\<rparr>"

definition apiLogin ::
  "'s server \<Rightarrow> jsval \<Rightarrow> 's \<Rightarrow> string \<Rightarrow> string \<Rightarrow>
   (js_error + login_result) \<times> 's \<times> api_event list" where
  "apiLogin srv apiBaseUrl s username password =
     (case cy_request srv s (login_request apiBaseUrl username password) of
        (Inl e, s', sent) \<Rightarrow>
          (Inl e, s', CyLog (''[API] Authenticating with username: '' @ username) # sent)
      | (Inr resp, s', sent) \<Rightarrow>
          (let logged = CyLog (''[API] Authenticating with username: '' @ username) # sent @
                        [TaskLog (''[API] Login response: '' @ show_number (status resp))]
           in if status resp = 200 \<or> status resp = 201
              then (if body resp = JUndefined \<or> body resp = JNull
                    then (Inl (TypeError ''Cannot read properties of undefined (reading data)''),
                          s', logged)
                    else (Inr \<lparr>token = js_or (opt_get (js_get (body resp) ''data'') ''token'')
                                              (opt_get (headers resp) ''authorization''),
                                response = resp\<rparr>,
                          s', logged @ [TaskLog ''[API] Authentication successful'']))
              else (Inr \<lparr>token = JNull, response = resp\<rparr>,
                    s', logged @ [TaskLog ''[API] Authentication failed''])))"

subsection \<open>apiRequest\<close>

text \<open>
  The options object. A property that is left out (\<open>None\<close>, or \<^verbatim>\<open>undefined\<close> for
  \<^verbatim>\<open>body\<close> and \<^verbatim>\<open>auth\<close>) takes the default of the destructuring.
\<close>

record api_options =
  opt_method :: "string option"
  opt_url :: string
  opt_body :: jsval
  opt_headers :: "(string \<times> string) list option"
  opt_auth :: jsval
  opt_failOnStatusCode :: "bool option"
  opt_timeout :: "int option"

definition requestOptions :: "api_options \<Rightarrow> request" where
  "requestOptions options =
     \<lparr>req_method = (case opt_method options of None \<Rightarrow> ''GET'' | Some m \<Rightarrow> m),
      req_url = opt_url options,
      req_headers = spread [(''Content-Type'', ''application/json'')]
                      (case opt_headers options of None \<Rightarrow> [] | Some hs \<Rightarrow> hs),
      req_body = (let b = (if opt_body options = JUndefined then JNull else opt_body options)
                  in if truthy b then Some b else None),
      req_failOnStatusCode = (case opt_failOnStatusCode options of None \<Rightarrow> False | Some f \<Rightarrow> f),
      req_timeout = Some (case opt_timeout options of None \<Rightarrow> 10000 | Some t \<Rightarrow> t)\<rparr>"

definition apiRequest ::
  "'s server \<Rightarrow> jsval \<Rightarrow> 's \<Rightarrow> api_options \<Rightarrow> (js_error + cy_response) \<times> 's \<times> api_event list" where
  "apiRequest srv apiBaseUrl s options =
     (let req = requestOptions options;
          auth = (if opt_auth options = JUndefined then JBool True else opt_auth options);
          logged = TaskLog (''[API] Making '' @ req_method req @ '' request to: '' @ opt_url options)
      in if truthy auth
         then (case apiLogin srv apiBaseUrl s ''Admin'' ''admin123'' of
                 (Inl e, s', events) \<Rightarrow> (Inl e, s', logged # events)
               | (Inr login, s', events) \<Rightarrow>
                   (case cy_request srv s'
                           (if truthy (token login)
                            then req\<lparr>req_headers :=
                                       AList.update ''Authorization''
                                         (''Bearer '' @ to_string (token login)) (req_headers req)\<rparr>
                            else req) of
                      (result, s'', sent) \<Rightarrow> (result, s'', logged # events @ sent)))
         else (case cy_request srv s req of
                 (result, s', sent) \<Rightarrow> (result, s', logged # sent)))"

text \<open>The requests a run sent, in order.\<close>

fun issued :: "api_event list \<Rightarrow> request list" where
  "issued [] = []"
| "issued (Request req # events) = req # issued events"
| "issued (e # events) = issued events"

section \<open>Decimal rendering is injective\<close>

lemma of_char_digit:
  assumes "d < 10"
  shows "of_char (digit_char d) = (48 + d :: nat)"
proof -
  from assms consider "d = 0" | "d = 1" | "d = 2" | "d = 3" | "d = 4"
    | "d = 5" | "d = 6" | "d = 7" | "d = 8" | "d = 9"
    by atomize_elim arith
  then show ?thesis
    by cases (simp_all add: digit_char_def)
qed

lemma digit_char_inj:
  assumes "a < 10" and "b < 10" and "digit_char a = digit_char b"
  shows "a = b"
proof -
  have "(of_char (digit_char a) :: nat) = of_char (digit_char b)"
    by (simp only: assms(3))
  then have "48 + a = 48 + b"
    by (simp only: of_char_digit [OF assms(1)] of_char_digit [OF assms(2)])
  then show ?thesis by simp
qed

lemma show_nat_nonempty: "show_nat n \<noteq> []"
  by (subst show_nat.simps) simp

lemma show_nat_inj: "show_nat a = show_nat b \<Longrightarrow> a = b"
proof (induction a arbitrary: b rule: show_nat.induct)
  case (1 n)
  show ?case
  proof (cases "n < 10")
    case small: True
    show ?thesis
    proof (cases "b < 10")
      case True
      with small "1.prems" show ?thesis
        by (simp add: show_nat.simps [of n] show_nat.simps [of b] digit_char_inj)
    next
      case False
      with small "1.prems" have "[digit_char n] = show_nat (b div 10) @ [digit_char (b mod 10)]"
        by (simp add: show_nat.simps [of n] show_nat.simps [of b])
      then have "show_nat (b div 10) = []" by simp
      then show ?thesis
        by (simp add: show_nat_nonempty)
    qed
  next
    case large: False
    show ?thesis
    proof (cases "b < 10")
      case True
      with large "1.prems" have "[digit_char b] = show_nat (n div 10) @ [digit_char (n mod 10)]"
        by (simp add: show_nat.simps [of n] show_nat.simps [of b])
      then have "show_nat (n div 10) = []" by simp
      then show ?thesis
        by (simp add: show_nat_nonempty)
    next
      case False
      with large "1.prems" have eq: "show_nat (n div 10) = show_nat (b div 10)"
        and d: "digit_char (n mod 10) = digit_char (b mod 10)"
        by (simp_all add: show_nat.simps [of n] show_nat.simps [of b])
      from "1.IH" [OF large eq] have "n div 10 = b div 10" .
      moreover from d have "n mod 10 = b mod 10"
        by (intro digit_char_inj) simp_all
      ultimately show ?thesis
        by (metis div_mult_mod_eq)
    qed
  qed
qed

lemma employeeId_eq: "js_get (generateEmployeeData t) ''employeeId'' = JStr (''EMP'' @ show_nat t)"
  by (simp add: generateEmployeeData_def)

section \<open>The validation loop collects every violation\<close>

lemma check_key_eq:
  "check_key obj schema (errs, li) key =
     (case map_of schema key of
        None \<Rightarrow> (errs, li)
      | Some fs \<Rightarrow> (errs @ fst (key_violations obj key fs li), snd (key_violations obj key fs li)))"
proof (cases "map_of schema key")
  case None
  then show ?thesis by (simp add: check_key_def)
next
  case (Some fs)
  then show ?thesis
    by (cases "ftype fs"; cases "pattern fs")
      (auto simp: check_key_def key_violations_def Let_def simp del: js_get.simps
        split: prod.splits)
qed

lemma foldl_check_key:
  "foldl (check_key obj schema) (errs, li) keys =
     (errs @ fst (all_violations obj schema li keys), snd (all_violations obj schema li keys))"
proof (induction keys arbitrary: errs li)
  case Nil
  show ?case by simp
next
  case (Cons key keys)
  show ?case
  proof (cases "map_of schema key")
    case None
    then show ?thesis
      by (simp add: check_key_eq [of obj schema errs li key] Cons.IH)
  next
    case (Some fs)
    then show ?thesis
      by (simp add: check_key_eq [of obj schema errs li key] Cons.IH split: prod.splits)
  qed
qed

lemma validation_run_all:
  "validation_run obj schema li = all_violations obj schema li (map fst schema)"
  by (simp add: validation_run_def foldl_check_key)

lemma key_violations_missing:
  assumes "required fs" and "\<not> truthy (js_get (JObj obj) key)"
  shows "MissingRequired key \<in> set (fst (key_violations obj key fs li))"
  using assms by (simp add: key_violations_def Let_def del: js_get.simps)

lemma key_violations_type:
  assumes "InvalidType key t got \<in> set (fst (key_violations obj key' fs li))"
  shows "truthy (js_get (JObj obj) key)"
  using assms
  by (cases "ftype fs"; cases "pattern fs")
    (auto simp: key_violations_def Let_def simp del: js_get.simps split: if_splits)

lemma key_violations_format:
  assumes "InvalidFormat key shown \<in> set (fst (key_violations obj key' fs li))"
  shows "truthy (js_get (JObj obj) key)"
  using assms
  by (cases "ftype fs"; cases "pattern fs")
    (auto simp: key_violations_def Let_def simp del: js_get.simps split: if_splits)

lemma all_violations_step:
  assumes "map_of schema key = Some fs"
  shows "fst (all_violations obj schema li (key # keys)) =
     fst (key_violations obj key fs li) @
     fst (all_violations obj schema (snd (key_violations obj key fs li)) keys)"
  using assms by (simp split: prod.splits)

lemma all_violations_missing:
  assumes "map_of schema key = Some fs" and "required fs"
    and "\<not> truthy (js_get (JObj obj) key)" and "key \<in> set keys"
  shows "MissingRequired key \<in> set (fst (all_violations obj schema li keys))"
  using assms(4)
proof (induction keys arbitrary: li)
  case Nil
  then show ?case by simp
next
  case (Cons k keys)
  show ?case
  proof (cases "k = key")
    case True
    then show ?thesis
      using key_violations_missing [OF assms(2,3), of li]
      by (simp only: all_violations_step [OF assms(1)]) simp
  next
    case False
    with Cons.prems have "key \<in> set keys" by simp
    note later = Cons.IH [OF this]
    show ?thesis
    proof (cases "map_of schema k")
      case None
      then show ?thesis using later by simp
    next
      case (Some fs')
      show ?thesis
        using later by (simp only: all_violations_step [OF Some]) simp
    qed
  qed
qed

lemma all_violations_type:
  assumes "InvalidType key t got \<in> set (fst (all_violations obj schema li keys))"
  shows "truthy (js_get (JObj obj) key)"
  using assms
proof (induction keys arbitrary: li)
  case Nil
  then show ?case by simp
next
  case (Cons k keys)
  show ?case
  proof (cases "map_of schema k")
    case None
    with Cons show ?thesis by simp
  next
    case (Some fs)
    from Cons.prems have "InvalidType key t got \<in> set (fst (key_violations obj k fs li)) \<or>
        InvalidType key t got \<in>
          set (fst (all_violations obj schema (snd (key_violations obj k fs li)) keys))"
      by (simp only: all_violations_step [OF Some]) simp
    then show ?thesis
      using key_violations_type Cons.IH by blast
  qed
qed

lemma all_violations_format:
  assumes "InvalidFormat key shown \<in> set (fst (all_violations obj schema li keys))"
  shows "truthy (js_get (JObj obj) key)"
  using assms
proof (induction keys arbitrary: li)
  case Nil
  then show ?case by simp
next
  case (Cons k keys)
  show ?case
  proof (cases "map_of schema k")
    case None
    with Cons show ?thesis by simp
  next
    case (Some fs)
    from Cons.prems have "InvalidFormat key shown \<in> set (fst (key_violations obj k fs li)) \<or>
        InvalidFormat key shown \<in>
          set (fst (all_violations obj schema (snd (key_violations obj k fs li)) keys))"
      by (simp only: all_violations_step [OF Some]) simp
    then show ?thesis
      using key_violations_format Cons.IH by blast
  qed
qed

section \<open>The error log and the thresholds\<close>

lemma logError_log: "errorLog (fst (logError h e)) = errorLog h @ [e]"
  by (simp add: logError_def Let_def)

lemma logError_thresholds: "errorThresholds (fst (logError h e)) = errorThresholds h"
  by (simp add: logError_def Let_def)

lemma map_of_spread: "map_of (spread a b) = map_of a ++ map_of (rev b)"
  unfolding spread_def
proof (induction b arbitrary: a)
  case Nil
  show ?case by simp
next
  case (Cons kv b)
  obtain k v where kv: "kv = (k, v)" by (cases kv)
  have "map_of (foldl (\<lambda>acc kv. AList.update (fst kv) (snd kv) acc) a (kv # b)) =
        map_of (AList.update k v a) ++ map_of (rev b)"
    by (simp add: kv Cons.IH)
  also have "\<dots> = (map_of a ++ [k \<mapsto> v]) ++ map_of (rev b)"
    by (simp add: update_conv')
  also have "\<dots> = map_of a ++ ([k \<mapsto> v] ++ map_of (rev b))"
    by (rule map_add_assoc [symmetric])
  also have "\<dots> = map_of a ++ map_of (rev (kv # b))"
    by (simp add: kv map_of_append)
  finally show ?case .
qed

lemma keys_spread: "fst ` set (spread a b) = fst ` set a \<union> fst ` set b"
proof -
  have "dom (map_of (spread a b)) = dom (map_of a) \<union> dom (map_of (rev b))"
    by (simp add: map_of_spread Un_commute)
  then show ?thesis
    by (simp add: dom_map_of_conv_image_fst)
qed

lemma spread_value:
  "map_of (spread a b) k =
     (case map_of (rev b) k of None \<Rightarrow> map_of a k | Some v \<Rightarrow> Some v)"
  by (simp add: map_of_spread map_add_def)

lemma spread_defined:
  assumes "map_of a k = Some v" and "v \<noteq> JUndefined" and "(k, JUndefined) \<notin> set b"
  shows "\<exists>v'. map_of (spread a b) k = Some v' \<and> v' \<noteq> JUndefined"
proof (cases "map_of (rev b) k")
  case None
  with assms(1,2) show ?thesis by (simp add: spread_value)
next
  case (Some w)
  then have "(k, w) \<in> set b"
    by (auto dest: map_of_SomeD)
  with assms(3) have "w \<noteq> JUndefined" by auto
  with Some show ?thesis by (simp add: spread_value)
qed

lemma setErrorThresholds_all_keys:
  "fst ` set (errorThresholds h) \<subseteq> fst ` set (errorThresholds (setErrorThresholds_all h overrides))"
  unfolding setErrorThresholds_all_def
proof (induction overrides arbitrary: h)
  case Nil
  show ?case by simp
next
  case (Cons ov overrides)
  have "fst ` set (errorThresholds h) \<subseteq> fst ` set (errorThresholds (fst (setErrorThresholds h ov)))"
    by (simp add: setErrorThresholds_def Let_def keys_spread)
  also note Cons.IH [of "fst (setErrorThresholds h ov)"]
  finally show ?case by simp
qed

lemma setThresholds_all_keys:
  "fst ` set (thresholds m) \<subseteq> fst ` set (thresholds (setThresholds_all m overrides))"
  unfolding setThresholds_all_def
proof (induction overrides arbitrary: m)
  case Nil
  show ?case by simp
next
  case (Cons ov overrides)
  have "fst ` set (thresholds m) \<subseteq> fst ` set (thresholds (fst (setThresholds m ov)))"
    by (simp add: setThresholds_def Let_def keys_spread)
  also note Cons.IH [of "fst (setThresholds m ov)"]
  finally show ?case by simp
qed

lemma setErrorThresholds_all_defined:
  assumes "map_of (errorThresholds h) k = Some v" and "v \<noteq> JUndefined"
    and "\<forall>ov\<in>set overrides. (k, JUndefined) \<notin> set ov"
  shows "\<exists>v'. map_of (errorThresholds (setErrorThresholds_all h overrides)) k = Some v' \<and>
              v' \<noteq> JUndefined"
  using assms unfolding setErrorThresholds_all_def
proof (induction overrides arbitrary: h v)
  case Nil
  then show ?case by simp
next
  case (Cons ov overrides)
  from Cons.prems have "(k, JUndefined) \<notin> set ov" by simp
  from spread_defined [OF Cons.prems(1,2) this] obtain v'
    where "map_of (errorThresholds (fst (setErrorThresholds h ov))) k = Some v'"
      and "v' \<noteq> JUndefined"
    by (auto simp: setErrorThresholds_def Let_def)
  moreover from Cons.prems have "\<forall>ov\<in>set overrides. (k, JUndefined) \<notin> set ov" by simp
  ultimately show ?case
    using Cons.IH [of "fst (setErrorThresholds h ov)" v'] by simp
qed

lemma setThresholds_all_defined:
  assumes "map_of (thresholds m) k = Some v" and "v \<noteq> JUndefined"
    and "\<forall>ov\<in>set overrides. (k, JUndefined) \<notin> set ov"
  shows "\<exists>v'. map_of (thresholds (setThresholds_all m overrides)) k = Some v' \<and>
              v' \<noteq> JUndefined"
  using assms unfolding setThresholds_all_def
proof (induction overrides arbitrary: m v)
  case Nil
  then show ?case by simp
next
  case (Cons ov overrides)
  from Cons.prems have "(k, JUndefined) \<notin> set ov" by simp
  from spread_defined [OF Cons.prems(1,2) this] obtain v'
    where "map_of (thresholds (fst (setThresholds m ov))) k = Some v'"
      and "v' \<noteq> JUndefined"
    by (auto simp: setThresholds_def Let_def)
  moreover from Cons.prems have "\<forall>ov\<in>set overrides. (k, JUndefined) \<notin> set ov" by simp
  ultimately show ?case
    using Cons.IH [of "fst (setThresholds m ov)" v'] by simp
qed

text \<open>Counting under a key that a plain object does not inherit.\<close>

lemma inherited_proto: "inherited k = JUndefined \<Longrightarrow> k \<noteq> ''__proto__''"
  by (auto simp: inherited_def object_prototype_methods_def)

lemma bump_other: "k \<noteq> key \<Longrightarrow> map_of (bump counts key) k = map_of counts k"
  by (simp add: bump_def Let_def update_conv' del: js_get.simps)

lemma bump_new:
  assumes "inherited key = JUndefined" and "map_of counts key = None"
  shows "map_of (bump counts key) key = Some (JNum 1)"
  using assms inherited_proto [OF assms(1)]
  by (simp add: bump_def Let_def update_conv' js_or_def)

lemma bump_counted:
  assumes "map_of counts key = Some (JNum n)"
  shows "map_of (bump counts key) key = Some (JNum (n + 1))"
  using assms by (simp add: bump_def Let_def update_conv' js_or_def)

lemma foldl_bump:
  assumes "inherited k = JUndefined"
    and "map_of counts k = None \<or> map_of counts k = Some (JNum n)"
  shows "map_of (foldl bump counts keys) k =
     (if k \<in> set keys \<or> map_of counts k \<noteq> None
      then Some (JNum ((if map_of counts k = None then 0 else n) + int (count_list keys k)))
      else None)"
  using assms(2)
proof (induction keys arbitrary: counts n)
  case Nil
  then show ?case by auto
next
  case (Cons key keys)
  show ?case
  proof (cases "key = k")
    case False
    then have same: "map_of (bump counts key) k = map_of counts k"
      by (simp add: bump_other)
    with Cons.prems
    have "map_of (bump counts key) k = None \<or> map_of (bump counts key) k = Some (JNum n)"
      by simp
    from Cons.IH [OF this] False same show ?thesis by simp
  next
    case True
    show ?thesis
    proof (cases "map_of counts k")
      case None
      with True assms(1) have new: "map_of (bump counts key) k = Some (JNum 1)"
        by (simp add: bump_new)
      then have "map_of (bump counts key) k = None \<or> map_of (bump counts key) k = Some (JNum 1)"
        by simp
      from Cons.IH [OF this] True None new show ?thesis by simp
    next
      case (Some c)
      with Cons.prems have c: "map_of counts k = Some (JNum n)" by simp
      with True have more: "map_of (bump counts key) k = Some (JNum (n + 1))"
        by (simp add: bump_counted)
      then have "map_of (bump counts key) k = None \<or>
          map_of (bump counts key) k = Some (JNum (n + 1))"
        by simp
      from Cons.IH [OF this] True c more show ?thesis by simp
    qed
  qed
qed

lemma fst_foldl_count_error:
  "fst (foldl count_error acc log) =
     foldl bump (fst acc) (map (\<lambda>e. to_string (js_get (JObj e) ''type'')) log)"
  by (induction log arbitrary: acc) (simp_all add: count_error_def del: js_get.simps)

lemma snd_foldl_count_error:
  "snd (foldl count_error acc log) =
     foldl bump (snd acc) (map (\<lambda>e. to_string (js_get (JObj e) ''context'')) log)"
  by (induction log arbitrary: acc) (simp_all add: count_error_def del: js_get.simps)

lemma drop_last_ten: "drop (length xs - 10) xs = rev (take 10 (rev xs))"
  by (simp add: take_rev)

text \<open>
  For every log: the total, the last ten records and, under every type and every context
  that is not the name of an inherited member, the number of records.
\<close>

lemma getErrorStatistics_counts:
  "totalErrors (getErrorStatistics h) = length (errorLog h) \<and>
   recentErrors (getErrorStatistics h) = rev (take 10 (rev (errorLog h))) \<and>
   (inherited ty = JUndefined \<longrightarrow>
      map_of (errorTypes (getErrorStatistics h)) ty =
        (if ty \<in> set (map (\<lambda>e. to_string (js_get (JObj e) ''type'')) (errorLog h))
         then Some (JNum (int (count_list
                (map (\<lambda>e. to_string (js_get (JObj e) ''type'')) (errorLog h)) ty)))
         else None)) \<and>
   (inherited ctx = JUndefined \<longrightarrow>
      map_of (errorContexts (getErrorStatistics h)) ctx =
        (if ctx \<in> set (map (\<lambda>e. to_string (js_get (JObj e) ''context'')) (errorLog h))
         then Some (JNum (int (count_list
                (map (\<lambda>e. to_string (js_get (JObj e) ''context'')) (errorLog h)) ctx)))
         else None))"
proof -
  have t: "map_of (foldl bump [] keys) k =
      (if k \<in> set keys then Some (JNum (int (count_list keys k))) else None)"
    if "inherited k = JUndefined" for k keys
    using foldl_bump [OF that, of "[]" 0 keys] by simp
  show ?thesis
    by (simp add: getErrorStatistics_def Let_def fst_foldl_count_error snd_foldl_count_error
        t drop_last_ten del: js_get.simps)
qed

section \<open>The retry loop\<close>

lemma invocations_append: "invocations (xs @ ys) = invocations xs + invocations ys"
  by (simp add: invocations_def)

lemma invocations_started: "invocations (attempt_started k n) = 1"
  by (simp add: invocations_def attempt_started_def)

lemma invocations_failed: "invocations (concat (map (failed_attempt n d) ks)) = length ks"
  by (induction ks)
    (simp_all add: invocations_def failed_attempt_def attempt_started_def attempt_retrying_def)

lemma invocations_none: "(\<forall>e\<in>set rest. \<not> is_Invoke e) \<Longrightarrow> invocations rest = 0"
  by (simp add: invocations_def)

lemma logError_no_Invoke: "\<forall>e\<in>set (snd (logError h r)). \<not> is_Invoke e"
  by (simp add: logError_def Let_def del: js_get.simps)

lemma retries_exhausted_eq:
  assumes "e \<noteq> JUndefined" and "e \<noteq> JNull"
  shows "retries_exhausted clk h name k n e =
     (Failed (Error (''Operation failed after '' @ show_number n @ '' attempts: '' @
                     to_string (js_get e ''message''))),
      fst (logError h (retryError clk name k n e)),
      snd (logError h (retryError clk name k n e)) @
      [LogError ''Retry attempts exhausted'' (JObj (retryError clk name k n e)),
       TakeScreenshot (''retry_exhausted_'' @ show_nat (now clk))])"
  using assms by (simp add: retries_exhausted_def split: prod.splits)

lemma retries_exhausted_no_Invoke:
  "\<forall>ev\<in>set (snd (snd (retries_exhausted clk h name k n e))). \<not> is_Invoke ev"
proof (cases "e = JUndefined \<or> e = JNull")
  case True
  then show ?thesis by (auto simp: retries_exhausted_def)
next
  case False
  then show ?thesis
    using logError_no_Invoke [of h "retryError clk name k n e"]
    by (simp add: retries_exhausted_eq)
qed

lemma attempt_shape:
  fixes operation :: "nat \<Rightarrow> 'r outcome"
  shows "\<exists>m rest. attempt_run clk name operation n d a h m rest"
proof (induction clk name operation n d a h rule: attempt.induct)
  case (1 clk name operation n d a h)
  show ?case
  proof (cases "operation (Suc a)")
    case (Fulfils result)
    then have "attempt_run clk name operation n d a h (Suc a) (attempt_succeeded (Suc a))"
      by (auto simp: attempt_run_def attempt.simps [of clk name operation n d a h]
          attempt_succeeded_def)
    then show ?thesis by blast
  next
    case (Throws thrown)
    then have "attempt_run clk name operation n d a h (Suc a)
        (if a = 0 then [] else [Uncaught thrown])"
      by (auto simp: attempt_run_def attempt.simps [of clk name operation n d a h])
    then show ?thesis by blast
  next
    case Hangs
    then have "attempt_run clk name operation n d a h (Suc a) []"
      by (auto simp: attempt_run_def attempt.simps [of clk name operation n d a h])
    then show ?thesis by blast
  next
    case (Rejects error)
    show ?thesis
    proof (cases "int (Suc a) \<ge> n")
      case True
      let ?ex = "retries_exhausted clk h name (Suc a) n error ::
        'r settled \<times> error_handler \<times> event list"
      have unfold: "attempt clk name operation n d a h =
          (fst (?ex),
           fst (snd (?ex)),
           attempt_started (Suc a) n @ snd (snd (?ex)))"
        using Rejects True
        by (simp add: attempt.simps [of clk name operation n d a h] case_prod_beta)
      have outcome: "fst (attempt clk name operation n d a h) =
            Failed (Error (''Operation failed after '' @ show_number n @ '' attempts: '' @
                           to_string (js_get error ''message''))) \<and>
          errorLog (fst (snd (attempt clk name operation n d a h))) =
            errorLog h @ [retryError clk name (Suc a) n error]"
        if "error \<noteq> JUndefined \<and> error \<noteq> JNull"
        using that by (simp add: unfold retries_exhausted_eq logError_log)
      have "attempt_run clk name operation n d a h (Suc a)
          (snd (snd (?ex)))"
        unfolding attempt_run_def
      proof (intro conjI)
        show "a < Suc a" by simp
        show "int (Suc a) \<le> n \<or> Suc a = Suc a" by simp
        show "\<forall>k. a < k \<and> k < Suc a \<longrightarrow> (\<exists>e. operation k = Rejects e)" by auto
        show "snd (snd (attempt clk name operation n d a h)) =
            concat (map (failed_attempt n d) [Suc a..<Suc a]) @ attempt_started (Suc a) n @
            snd (snd (?ex))"
          by (simp add: unfold)
        show "\<forall>e\<in>set (snd (snd (?ex))). \<not> is_Invoke e"
          by (rule retries_exhausted_no_Invoke)
        show "case operation (Suc a) of
            Fulfils result \<Rightarrow>
              fst (attempt clk name operation n d a h) = Resolved result \<and>
              fst (snd (attempt clk name operation n d a h)) = h
          | Rejects error \<Rightarrow>
              n \<le> int (Suc a) \<and>
              (error \<noteq> JUndefined \<and> error \<noteq> JNull \<longrightarrow>
                 fst (attempt clk name operation n d a h) =
                   Failed (Error (''Operation failed after '' @ show_number n @
                                  '' attempts: '' @ to_string (js_get error ''message''))) \<and>
                 errorLog (fst (snd (attempt clk name operation n d a h))) =
                   errorLog h @ [retryError clk name (Suc a) n error])
          | Throws thrown \<Rightarrow> True
          | Hangs \<Rightarrow> True"
          using True outcome by (simp only: Rejects outcome.case) blast
      qed
      then show ?thesis by blast
    next
      case False
      from "1.IH" [OF Rejects False] obtain m rest
        where run: "attempt_run clk name operation n d (Suc a) h m rest"
        by blast
      from run have lt: "Suc a < m"
        by (simp add: attempt_run_def)
      have unfold: "attempt clk name operation n d a h =
          (fst (attempt clk name operation n d (Suc a) h),
           fst (snd (attempt clk name operation n d (Suc a) h)),
           attempt_started (Suc a) n @ attempt_retrying (Suc a) d @
           snd (snd (attempt clk name operation n d (Suc a) h)))"
        using Rejects False
        by (simp add: attempt.simps [of clk name operation n d a h] case_prod_beta)
      have upt: "[Suc a..<m] = Suc a # [Suc (Suc a)..<m]"
        using lt by (simp add: upt_conv_Cons)
      have fails: "\<forall>k. a < k \<and> k < m \<longrightarrow> (\<exists>e. operation k = Rejects e)"
      proof (intro allI impI)
        fix k assume k: "a < k \<and> k < m"
        show "\<exists>e. operation k = Rejects e"
        proof (cases "k = Suc a")
          case True
          with Rejects show ?thesis by simp
        next
          case False
          with k have "Suc a < k \<and> k < m" by simp
          with run show ?thesis by (simp add: attempt_run_def)
        qed
      qed
      have same1: "fst (attempt clk name operation n d a h) =
          fst (attempt clk name operation n d (Suc a) h)"
        and same2: "fst (snd (attempt clk name operation n d a h)) =
          fst (snd (attempt clk name operation n d (Suc a) h))"
        by (simp_all add: unfold)
      have "attempt_run clk name operation n d a h m rest"
        unfolding attempt_run_def
      proof (intro conjI)
        show "a < m" using lt by simp
        show "int m \<le> n \<or> m = Suc a"
          using run False by (auto simp: attempt_run_def)
        show "\<forall>k. a < k \<and> k < m \<longrightarrow> (\<exists>e. operation k = Rejects e)" by (rule fails)
        show "snd (snd (attempt clk name operation n d a h)) =
            concat (map (failed_attempt n d) [Suc a..<m]) @ attempt_started m n @ rest"
          using run by (simp add: unfold upt attempt_run_def failed_attempt_def)
        show "\<forall>e\<in>set rest. \<not> is_Invoke e"
          using run by (simp add: attempt_run_def)
        from run have "case operation m of
            Fulfils result \<Rightarrow>
              fst (attempt clk name operation n d (Suc a) h) = Resolved result \<and>
              fst (snd (attempt clk name operation n d (Suc a) h)) = h
          | Rejects error \<Rightarrow>
              n \<le> int m \<and>
              (error \<noteq> JUndefined \<and> error \<noteq> JNull \<longrightarrow>
                 fst (attempt clk name operation n d (Suc a) h) =
                   Failed (Error (''Operation failed after '' @ show_number n @
                                  '' attempts: '' @ to_string (js_get error ''message''))) \<and>
                 errorLog (fst (snd (attempt clk name operation n d (Suc a) h))) =
                   errorLog h @ [retryError clk name m n error])
          | Throws thrown \<Rightarrow> True
          | Hangs \<Rightarrow> True"
          by (simp only: attempt_run_def)
        then show "case operation m of
            Fulfils result \<Rightarrow>
              fst (attempt clk name operation n d a h) = Resolved result \<and>
              fst (snd (attempt clk name operation n d a h)) = h
          | Rejects error \<Rightarrow>
              n \<le> int m \<and>
              (error \<noteq> JUndefined \<and> error \<noteq> JNull \<longrightarrow>
                 fst (attempt clk name operation n d a h) =
                   Failed (Error (''Operation failed after '' @ show_number n @
                                  '' attempts: '' @ to_string (js_get error ''message''))) \<and>
                 errorLog (fst (snd (attempt clk name operation n d a h))) =
                   errorLog h @ [retryError clk name m n error])
          | Throws thrown \<Rightarrow> True
          | Hangs \<Rightarrow> True"
          by (simp only: same1 same2)
      qed
      then show ?thesis by blast
    qed
  qed
qed

section \<open>Batches of concurrent requests\<close>

lemma start_batches_run:
  assumes "0 < mc"
  shows "\<exists>q'. start_batches rs mc i (tr, q) = Some (tr @ map Started (drop i rs), q @ q') \<and>
           concat q' = drop i rs \<and> (\<forall>b\<in>set q'. b \<noteq> [] \<and> length b \<le> mc)"
proof (induction "length rs - i" arbitrary: i tr q rule: less_induct)
  case less
  show ?case
  proof (cases "i < length rs")
    case False
    then have "start_batches rs mc i (tr, q) = Some (tr, q)"
      by (subst start_batches.simps) simp
    with False show ?thesis by simp
  next
    case True
    let ?b = "take mc (drop i rs)"
    from True assms have "length rs - (i + mc) < length rs - i" by simp
    from less [OF this, of "tr @ map Started ?b" "q @ [?b]"] obtain q'
      where run: "start_batches rs mc (i + mc) (tr @ map Started ?b, q @ [?b]) =
          Some ((tr @ map Started ?b) @ map Started (drop (i + mc) rs), (q @ [?b]) @ q')"
        and cat: "concat q' = drop (i + mc) rs"
        and sizes: "\<forall>b\<in>set q'. b \<noteq> [] \<and> length b \<le> mc"
      by blast
    have split: "?b @ drop (i + mc) rs = drop i rs"
      by (metis add.commute append_take_drop_id drop_drop)
    have step: "start_batches rs mc i (tr, q) =
        start_batches rs mc (i + mc) (tr @ map Started ?b, q @ [?b])"
      using True by (subst start_batches.simps) simp
    have "map Started ?b @ map Started (drop (i + mc) rs) = map Started (drop i rs)"
      by (simp only: map_append [symmetric] split)
    then have started: "(tr @ map Started ?b) @ map Started (drop (i + mc) rs) =
        tr @ map Started (drop i rs)"
      by (simp only: append_assoc)
    have "start_batches rs mc i (tr, q) =
        Some (tr @ map Started (drop i rs), (q @ [?b]) @ q')"
      by (simp only: step run started)
    then have "start_batches rs mc i (tr, q) =
        Some (tr @ map Started (drop i rs), q @ (?b # q'))"
      by (simp only: append_assoc append_Cons append_Nil)
    moreover have "concat (?b # q') = drop i rs"
      by (simp only: concat.simps cat split)
    moreover have "\<forall>b\<in>set (?b # q'). b \<noteq> [] \<and> length b \<le> mc"
      using sizes True assms by simp
    ultimately show ?thesis by blast
  qed
qed

lemma foldl_await_batch:
  "foldl (await_batch value) (tr, rs) queue =
     (tr @ map Settled (concat queue), rs @ map value (concat queue))"
  by (induction queue arbitrary: tr rs) (simp_all add: await_batch_def)

lemma monitorConcurrentRequests_eager:
  assumes "0 < maxConcurrent"
  shows "\<exists>run. monitorConcurrentRequests value requests maxConcurrent = Some run \<and>
           concat (batches run) = requests \<and>
           (\<forall>b\<in>set (batches run). b \<noteq> [] \<and> length b \<le> maxConcurrent) \<and>
           trace run = map Started requests @ map Settled requests \<and>
           results run = map value requests"
proof -
  from start_batches_run [OF assms, of requests 0 "[]" "[]"] obtain queue
    where "start_batches requests maxConcurrent 0 ([], []) = Some (map Started requests, queue)"
      and "concat queue = requests"
      and "\<forall>b\<in>set queue. b \<noteq> [] \<and> length b \<le> maxConcurrent"
    by auto
  then show ?thesis
    by (simp add: monitorConcurrentRequests_def foldl_await_batch)
qed

section \<open>Login and authenticated requests\<close>

lemma cy_request_answer:
  assumes "srv s req = (Inr resp, s')" and "\<not> req_failOnStatusCode req"
  shows "cy_request srv s req = (Inr resp, s', [Request req])"
  using assms by (simp add: cy_request_def)


lemma apiLogin_failed:
  assumes "srv s (login_request base u p) = (Inr resp, s')"
    and "status resp \<noteq> 200" and "status resp \<noteq> 201"
  shows "apiLogin srv base s u p =
    (Inr \<lparr>token = JNull, response = resp\<rparr>, s',
     [CyLog (''[API] Authenticating with username: '' @ u), Request (login_request base u p),
      TaskLog (''[API] Login response: '' @ show_number (status resp)),
      TaskLog ''[API] Authentication failed''])"
proof -
  have "cy_request srv s (login_request base u p) =
      (Inr resp, s', [Request (login_request base u p)])"
    using assms(1) by (intro cy_request_answer) (simp_all add: login_request_def)
  with assms(2,3) show ?thesis
    by (simp add: apiLogin_def)
qed

lemma issued_append: "issued (xs @ ys) = issued xs @ issued ys"
  by (induction xs rule: issued.induct) simp_all

lemma issued_cy_request: "issued (snd (snd (cy_request srv s req))) = [req]"
  by (simp add: cy_request_def split: prod.splits sum.splits)

section \<open>Claims\<close>

text \<open>
  C4, as stated: calls to \<^verbatim>\<open>generateEmployeeData\<close> made within the same millisecond give
  pairwise distinct \<^verbatim>\<open>employeeId\<close> values. Two calls that both read the clock at
  1700000000000 ms give the same \<^verbatim>\<open>employeeId\<close>, so the statement fails.
\<close>

theorem C4_same_tick_counterexample:
  "\<not> distinct (employeeIds [1700000000000, 1700000000000])"
  by (simp add: employeeIds_def)

text \<open>
  C4, amended: the \<^verbatim>\<open>employeeId\<close> is \<^verbatim>\<open>EMP\<close> followed by the clock reading, so calls
  made at pairwise distinct millisecond readings give pairwise distinct \<^verbatim>\<open>employeeId\<close>
  values, and two calls that read the same millisecond give the same value.
\<close>

theorem C4_employeeId_distinct_readings:
  "(distinct ts \<longrightarrow> distinct (employeeIds ts)) \<and>
   (employeeIds [t, t] = [JStr (''EMP'' @ show_nat t), JStr (''EMP'' @ show_nat t)])"
proof -
  have "inj_on (\<lambda>t. js_get (generateEmployeeData t) ''employeeId'') (set ts)"
    by (rule inj_onI) (simp add: employeeId_eq show_nat_inj)
  then show ?thesis
    by (simp add: employeeIds_def distinct_map employeeId_eq)
qed

theorem C4_employeeId_distinct_readings_witness:
  "distinct [1700000000000, 1700000000001 :: nat] \<and>
   distinct (employeeIds [1700000000000, 1700000000001])"
  using C4_employeeId_distinct_readings [of "[1700000000000, 1700000000001]"] by simp

text \<open>
  C3, as stated: \<^verbatim>\<open>validateTestData\<close> checks each schema key for type match, and when no
  check fails it returns its input unchanged. On \<^verbatim>\<open>{ name: 'x' }\<close> with the schema
  \<^verbatim>\<open>{ name: { required: true, type: 'string' } }\<close> it succeeds, and what it returns is
  \<^verbatim>\<open>true\<close>, not the data object. And on \<^verbatim>\<open>{ count: 0 }\<close> with the schema
  \<^verbatim>\<open>{ count: { type: 'string' } }\<close> it succeeds as well: the type of a falsy value is
  not looked at.
\<close>

theorem C3_returns_true_counterexample:
  "fst (validateTestData [(''name'', JStr ''x'')]
     [(''name'', \<lparr>required = True, ftype = Some ''string'', pattern = None\<rparr>)] (\<lambda>r. 0))
   \<noteq> Inr (JObj [(''name'', JStr ''x'')]) \<and>
   fst (validateTestData [(''count'', JNum 0)]
     [(''count'', \<lparr>required = False, ftype = Some ''string'', pattern = None\<rparr>)] (\<lambda>r. 0))
   = Inr (JBool True)"
  by (simp add: validateTestData_def validation_run_def check_key_def)

text \<open>
  C3, amended: for every data object and schema, \<^verbatim>\<open>validateTestData\<close> goes through the
  schema's keys in order and reads \<^verbatim>\<open>data[key]\<close> for each. It reports the key as missing
  when the key is required and the value is falsy; when the value is truthy it reports a
  type violation if the schema names a type that is not the value's, and a format violation
  if the schema has a pattern whose \<^verbatim>\<open>test\<close> rejects the value (a pattern with the
  \<^verbatim>\<open>g\<close> or \<^verbatim>\<open>y\<close> flag tests from its \<^verbatim>\<open>lastIndex\<close>, which the test moves). It
  collects every violation (it does not stop at the first). When there is any, it raises one
  error whose message lists all of them, joined by commas; when there is none, it returns
  \<^verbatim>\<open>true\<close>. The data object is only read.
\<close>

theorem C3_validateTestData_aggregate:
  "validateTestData obj schema li =
     (if fst (all_violations obj schema li (map fst schema)) = []
      then Inr (JBool True)
      else Inl (Error (''Test data validation failed: '' @
                       join '', '' (map render (fst (all_violations obj schema li (map fst schema)))))),
      snd (all_violations obj schema li (map fst schema)))"
  by (simp add: validateTestData_def validation_run_all Let_def)

theorem C3_validateTestData_aggregate_witness:
  "fst (validateTestData [] [(''name'', \<lparr>required = True, ftype = None, pattern = None\<rparr>)] (\<lambda>r. 0))
     = Inl (Error ''Test data validation failed: Missing required field: name'') \<and>
   fst (validateTestData [(''name'', JStr ''x'')]
     [(''name'', \<lparr>required = True, ftype = Some ''string'', pattern = None\<rparr>)] (\<lambda>r. 0))
     = Inr (JBool True) \<and>
   fst (validateTestData [(''age'', JStr ''old'')]
     [(''name'', \<lparr>required = True, ftype = None, pattern = None\<rparr>),
      (''age'', \<lparr>required = True, ftype = Some ''number'',
                pattern = Some \<lparr>rx_id = 0, rx_global_or_sticky = False,
                                rx_exec = (\<lambda>i s. if s = ''42'' then Some 2 else None)\<rparr>\<rparr>)]
     (\<lambda>r. 0))
     = Inl (Error (''Test data validation failed: Missing required field: name, '' @
                   ''Invalid type for age: expected number, got string, '' @
                   ''Invalid format for age: old''))"
  using
    C3_validateTestData_aggregate [of "[]"
      "[(''name'', \<lparr>required = True, ftype = None, pattern = None\<rparr>)]" "\<lambda>r. 0"]
    C3_validateTestData_aggregate [of "[(''name'', JStr ''x'')]"
      "[(''name'', \<lparr>required = True, ftype = Some ''string'', pattern = None\<rparr>)]" "\<lambda>r. 0"]
    C3_validateTestData_aggregate [of "[(''age'', JStr ''old'')]"
      "[(''name'', \<lparr>required = True, ftype = None, pattern = None\<rparr>),
        (''age'', \<lparr>required = True, ftype = Some ''number'',
                  pattern = Some \<lparr>rx_id = 0, rx_global_or_sticky = False,
                                  rx_exec = (\<lambda>i s. if s = ''42'' then Some 2 else None)\<rparr>\<rparr>)]"
      "\<lambda>r. 0"]
  by (simp add: key_violations_def regexp_test_def inherited_def object_prototype_methods_def)

text \<open>
  C8: for every schema key whose data value \<^verbatim>\<open>data[key]\<close> is falsy (\<^verbatim>\<open>0\<close>, the empty
  string, \<^verbatim>\<open>false\<close>, \<^verbatim>\<open>null\<close>, \<^verbatim>\<open>undefined\<close>): if the key is marked required,
  \<^verbatim>\<open>validateTestData\<close> raises, and the error it raises lists the key as missing; no type
  violation and no format violation of that key is among the violations the error lists;
  and the key's pattern is not tested at all (the \<^verbatim>\<open>lastIndex\<close> of every pattern is what it
  was before the key). What \<^verbatim>\<open>validateTestData\<close> returns or raises is fixed by the
  violations collected. So an explicit \<^verbatim>\<open>0\<close> or \<^verbatim>\<open>false\<close> fails a required check and
  never a type check.
\<close>

theorem C8_falsy_is_missing_and_unchecked:
  assumes "map_of schema key = Some fs"
    and "\<not> truthy (js_get (JObj obj) key)"
  shows "fst (validateTestData obj schema li) =
           (if fst (validation_run obj schema li) = [] then Inr (JBool True)
            else Inl (Error (''Test data validation failed: '' @
                             join '', '' (map render (fst (validation_run obj schema li)))))) \<and>
         (required fs \<longrightarrow>
            MissingRequired key \<in> set (fst (validation_run obj schema li)) \<and>
            fst (validateTestData obj schema li) =
              Inl (Error (''Test data validation failed: '' @
                          join '', '' (map render (fst (validation_run obj schema li)))))) \<and>
         (\<forall>t got. InvalidType key t got \<notin> set (fst (validation_run obj schema li))) \<and>
         (\<forall>shown. InvalidFormat key shown \<notin> set (fst (validation_run obj schema li))) \<and>
         snd (check_key obj schema st key) = snd st \<and>
         \<not> truthy (JNum 0) \<and> \<not> truthy (JStr []) \<and> \<not> truthy (JBool False) \<and>
         \<not> truthy JNull \<and> \<not> truthy JUndefined"
proof -
  have result: "fst (validateTestData obj schema li) =
      (if fst (validation_run obj schema li) = [] then Inr (JBool True)
       else Inl (Error (''Test data validation failed: '' @
                        join '', '' (map render (fst (validation_run obj schema li))))))"
    by (simp add: validateTestData_def Let_def)
  have key_in: "key \<in> set (map fst schema)"
    using assms(1) by (metis map_of_eq_None_iff option.distinct(1) set_map)
  have missing: "MissingRequired key \<in> set (fst (validation_run obj schema li))" if "required fs"
    using all_violations_missing [OF assms(1) that assms(2) key_in]
    by (simp add: validation_run_all)
  have raises: "fst (validateTestData obj schema li) =
      Inl (Error (''Test data validation failed: '' @
                  join '', '' (map render (fst (validation_run obj schema li)))))"
    if "required fs"
  proof -
    from missing [OF that] have "fst (validation_run obj schema li) \<noteq> []" by auto
    then show ?thesis by (simp add: result)
  qed
  have no_type: "InvalidType key t got \<notin> set (fst (validation_run obj schema li))" for t got
    using assms(2) all_violations_type [of key t got obj schema li "map fst schema"]
    by (auto simp: validation_run_all)
  have no_format: "InvalidFormat key shown \<notin> set (fst (validation_run obj schema li))" for shown
    using assms(2) all_violations_format [of key shown obj schema li "map fst schema"]
    by (auto simp: validation_run_all)
  have untested: "snd (check_key obj schema st key) = snd st"
    using assms
    by (cases "ftype fs"; cases "pattern fs")
      (simp_all add: check_key_def Let_def del: js_get.simps)
  show ?thesis
    using result missing raises no_type no_format untested by simp
qed

theorem C8_falsy_is_missing_and_unchecked_witness:
  "fst (validateTestData [(''count'', JNum 0), (''active'', JBool False)]
      [(''count'', \<lparr>required = True, ftype = Some ''string'',
                  pattern = Some \<lparr>rx_id = 0, rx_global_or_sticky = True,
                                  rx_exec = (\<lambda>i s. None)\<rparr>\<rparr>),
       (''active'', \<lparr>required = True, ftype = Some ''string'', pattern = None\<rparr>)] (\<lambda>r. 0))
   = Inl (Error (''Test data validation failed: Missing required field: count, '' @
                 ''Missing required field: active'')) \<and>
   InvalidType ''count'' ''string'' ''number'' \<notin> set (fst (validation_run
      [(''count'', JNum 0), (''active'', JBool False)]
      [(''count'', \<lparr>required = True, ftype = Some ''string'',
                  pattern = Some \<lparr>rx_id = 0, rx_global_or_sticky = True,
                                  rx_exec = (\<lambda>i s. None)\<rparr>\<rparr>),
       (''active'', \<lparr>required = True, ftype = Some ''string'', pattern = None\<rparr>)] (\<lambda>r. 0)))"
  using C8_falsy_is_missing_and_unchecked [of
      "[(''count'', \<lparr>required = True, ftype = Some ''string'',
                   pattern = Some \<lparr>rx_id = 0, rx_global_or_sticky = True,
                                   rx_exec = (\<lambda>i s. None)\<rparr>\<rparr>),
        (''active'', \<lparr>required = True, ftype = Some ''string'', pattern = None\<rparr>)]"
      "''count''"
      "\<lparr>required = True, ftype = Some ''string'',
        pattern = Some \<lparr>rx_id = 0, rx_global_or_sticky = True, rx_exec = (\<lambda>i s. None)\<rparr>\<rparr>"
      "[(''count'', JNum 0), (''active'', JBool False)]" "\<lambda>r. 0"]
  by (simp add: validation_run_def check_key_def)

text \<open>
  C5: for every response object, \<^verbatim>\<open>handleApiError\<close> raises exactly when
  \<^verbatim>\<open>response.status >= 400\<close>; before it raises it has appended an \<^verbatim>\<open>ApiError\<close> record
  to the error log, logged the error and asked for a screenshot. When the status is below
  400 it returns the response unchanged, appends nothing and calls no command.
\<close>

theorem C5_handleApiError:
  "(status resp \<ge> 400 \<longrightarrow>
      fst (handleApiError clk h resp context) =
        Inl (Error (''API error: '' @ show_number (status resp) @ '' '' @
                    to_string (statusText resp))) \<and>
      errorLog (fst (snd (handleApiError clk h resp context))) =
        errorLog h @ [apiError clk resp context] \<and>
      js_get (JObj (apiError clk resp context)) ''type'' = JStr ''ApiError'' \<and>
      LogError ''API error occurred'' (JObj (apiError clk resp context))
        \<in> set (snd (snd (handleApiError clk h resp context))) \<and>
      TakeScreenshot (''api_error_'' @ show_nat (now clk))
        \<in> set (snd (snd (handleApiError clk h resp context)))) \<and>
   (status resp < 400 \<longrightarrow>
      handleApiError clk h resp context = (Inr resp, h, [])) \<and>
   ((\<exists>e. fst (handleApiError clk h resp context) = Inl e) \<longleftrightarrow> status resp \<ge> 400)"
proof (cases "status resp \<ge> 400")
  case True
  obtain h' logged where l: "logError h (apiError clk resp context) = (h', logged)"
    by (cases "logError h (apiError clk resp context)")
  have "h' = fst (logError h (apiError clk resp context))"
    by (simp add: l)
  then have log: "errorLog h' = errorLog h @ [apiError clk resp context]"
    by (simp add: logError_log)
  have ty: "js_get (JObj (apiError clk resp context)) ''type'' = JStr ''ApiError''"
    by (simp add: apiError_def)
  from True l log ty show ?thesis
    by (simp add: handleApiError_def)
next
  case False
  then show ?thesis
    by (simp add: handleApiError_def)
qed

theorem C5_handleApiError_witness:
  "fst (handleApiError \<lparr>iso = ''2024-01-01T00:00:00.000Z'', now = 1704067200000\<rparr> new_ErrorHandler
     \<lparr>status = 404, statusText = JStr ''Not Found'', body = JNull, headers = JUndefined,
      config = JUndefined, data = JNull\<rparr> ''employees'')
     = Inl (Error ''API error: 404 Not Found'') \<and>
   handleApiError \<lparr>iso = ''2024-01-01T00:00:00.000Z'', now = 1704067200000\<rparr> new_ErrorHandler
     \<lparr>status = 200, statusText = JStr ''OK'', body = JNull, headers = JUndefined,
      config = JUndefined, data = JNull\<rparr> ''employees''
     = (Inr \<lparr>status = 200, statusText = JStr ''OK'', body = JNull, headers = JUndefined,
             config = JUndefined, data = JNull\<rparr>, new_ErrorHandler, [])"
  using
    C5_handleApiError [of
      "\<lparr>status = 404, statusText = JStr ''Not Found'', body = JNull, headers = JUndefined,
        config = JUndefined, data = JNull\<rparr>"
      "\<lparr>iso = ''2024-01-01T00:00:00.000Z'', now = 1704067200000\<rparr>" new_ErrorHandler "''employees''"]
    C5_handleApiError [of
      "\<lparr>status = 200, statusText = JStr ''OK'', body = JNull, headers = JUndefined,
        config = JUndefined, data = JNull\<rparr>"
      "\<lparr>iso = ''2024-01-01T00:00:00.000Z'', now = 1704067200000\<rparr>" new_ErrorHandler "''employees''"]
  by (simp add: show_number_def show_int_def show_nat.simps digit_char_def)

text \<open>
  C6: \<^verbatim>\<open>getErrorStatistics\<close> counts the records by type and by context in objects that
  start as \<^verbatim>\<open>{}\<close>. After one \<^verbatim>\<open>ElementNotFound\<close> and two \<^verbatim>\<open>TimeoutError\<close> records,
  \<^verbatim>\<open>errorTypes\<close> is \<^verbatim>\<open>{ElementNotFound: 1, TimeoutError: 2}\<close>. But after
  \<^verbatim>\<open>handleApiError\<close> has logged one error with the context \<^verbatim>\<open>constructor\<close>, the entry of
  \<^verbatim>\<open>errorContexts\<close> for that context is not the count 1: the first read of
  \<^verbatim>\<open>errorContexts['constructor']\<close> finds the inherited function \<^verbatim>\<open>Object\<close>, and
  \<^verbatim>\<open>+ 1\<close> turns it into a string.
\<close>

theorem C6_inherited_key_miscounted:
  "errorContexts (getErrorStatistics (fst (snd (handleApiError
      \<lparr>iso = ''2024-01-01T00:00:00.000Z'', now = 1704067200000\<rparr> new_ErrorHandler
      \<lparr>status = 500, statusText = JStr ''Server Error'', body = JNull, headers = JUndefined,
       config = JUndefined, data = JNull\<rparr> ''constructor''))))
     = [(''constructor'', JStr ''function Object() { [native code] }1'')] \<and>
   errorTypes (getErrorStatistics (fst (snd (handleApiError
      \<lparr>iso = ''2024-01-01T00:00:00.000Z'', now = 1704067200000\<rparr> new_ErrorHandler
      \<lparr>status = 500, statusText = JStr ''Server Error'', body = JNull, headers = JUndefined,
       config = JUndefined, data = JNull\<rparr> ''constructor''))))
     = [(''ApiError'', JNum 1)] \<and>
   errorTypes (getErrorStatistics (fst (logError (fst (logError (fst (logError new_ErrorHandler
      [(''type'', JStr ''ElementNotFound''), (''context'', JStr ''login'')]))
      [(''type'', JStr ''TimeoutError''), (''context'', JStr ''login'')]))
      [(''type'', JStr ''TimeoutError'')])))
     = [(''ElementNotFound'', JNum 1), (''TimeoutError'', JNum 2)]"
  by (simp add: getErrorStatistics_def count_error_def bump_def handleApiError_def apiError_def
      logError_def new_ErrorHandler_def js_or_def inherited_def object_prototype_methods_def
      opt_get_def js_ge_def)

text \<open>
  C7, as stated: after any \<^verbatim>\<open>setErrorThresholds\<close> call with an arbitrary partial override,
  every key of the default configuration remains defined. The override is spread over the
  configuration with all its own properties, also one whose value is \<^verbatim>\<open>undefined\<close>: after
  \<^verbatim>\<open>setErrorThresholds({ critical: undefined })\<close> on a new handler,
  \<^verbatim>\<open>errorThresholds.critical\<close> is \<^verbatim>\<open>undefined\<close>.
\<close>

theorem C7_undefined_override_counterexample:
  "js_get (JObj (errorThresholds (setErrorThresholds_all new_ErrorHandler
      [[(''critical'', JUndefined)]]))) ''critical'' = JUndefined \<and>
   js_get (JObj (thresholds (setThresholds_all new_PerformanceMonitor
      [[(''loginTime'', JUndefined)]]))) ''loginTime'' = JUndefined"
  by (simp add: setErrorThresholds_all_def setErrorThresholds_def new_ErrorHandler_def
      setThresholds_all_def setThresholds_def new_PerformanceMonitor_def spread_def)

text \<open>
  C7, amended: after any series of \<^verbatim>\<open>setErrorThresholds\<close> calls on a handler, and after
  any series of \<^verbatim>\<open>setThresholds\<close> calls on a monitor, each with any override object, every
  key the configuration had before is still a key of it; in particular every key of the
  default configuration stays a key. A single call merges: the new configuration is the old
  one overridden by the override's own properties, and every other key keeps its value. A
  key whose value was defined stays defined unless an override of the series gives it the
  value \<^verbatim>\<open>undefined\<close>.
\<close>

theorem C7_thresholds_stay_defined:
  "fst ` set (errorThresholds h) \<subseteq> fst ` set (errorThresholds (setErrorThresholds_all h overrides)) \<and>
   fst ` set (thresholds m) \<subseteq> fst ` set (thresholds (setThresholds_all m overrides')) \<and>
   {''critical'', ''warning'', ''info''}
     \<subseteq> fst ` set (errorThresholds (setErrorThresholds_all new_ErrorHandler overrides)) \<and>
   {''pageLoadTime'', ''apiResponseTime'', ''loginTime'', ''memoryUsage''}
     \<subseteq> fst ` set (thresholds (setThresholds_all new_PerformanceMonitor overrides')) \<and>
   map_of (errorThresholds (fst (setErrorThresholds h ov))) =
     map_of (errorThresholds h) ++ map_of (rev ov) \<and>
   map_of (thresholds (fst (setThresholds m ov))) = map_of (thresholds m) ++ map_of (rev ov) \<and>
   (map_of (errorThresholds h) k = Some v \<and> v \<noteq> JUndefined \<and>
    (\<forall>ov\<in>set overrides. (k, JUndefined) \<notin> set ov) \<longrightarrow>
      (\<exists>v'. map_of (errorThresholds (setErrorThresholds_all h overrides)) k = Some v' \<and>
            v' \<noteq> JUndefined)) \<and>
   (map_of (thresholds m) k' = Some w \<and> w \<noteq> JUndefined \<and>
    (\<forall>ov\<in>set overrides'. (k', JUndefined) \<notin> set ov) \<longrightarrow>
      (\<exists>w'. map_of (thresholds (setThresholds_all m overrides')) k' = Some w' \<and>
            w' \<noteq> JUndefined))"
proof -
  have "{''critical'', ''warning'', ''info''} = fst ` set (errorThresholds new_ErrorHandler)"
    by (simp add: new_ErrorHandler_def insert_commute)
  then have e: "{''critical'', ''warning'', ''info''}
      \<subseteq> fst ` set (errorThresholds (setErrorThresholds_all new_ErrorHandler overrides))"
    by (simp only: setErrorThresholds_all_keys)
  have "{''pageLoadTime'', ''apiResponseTime'', ''loginTime'', ''memoryUsage''} =
      fst ` set (thresholds new_PerformanceMonitor)"
    by (simp add: new_PerformanceMonitor_def insert_commute)
  then have p: "{''pageLoadTime'', ''apiResponseTime'', ''loginTime'', ''memoryUsage''}
      \<subseteq> fst ` set (thresholds (setThresholds_all new_PerformanceMonitor overrides'))"
    by (simp only: setThresholds_all_keys)
  have m1: "map_of (errorThresholds (fst (setErrorThresholds h ov))) =
     map_of (errorThresholds h) ++ map_of (rev ov)"
    by (simp add: setErrorThresholds_def Let_def map_of_spread)
  have m2: "map_of (thresholds (fst (setThresholds m ov))) = map_of (thresholds m) ++ map_of (rev ov)"
    by (simp add: setThresholds_def Let_def map_of_spread)
  have d1: "\<exists>v'. map_of (errorThresholds (setErrorThresholds_all h overrides)) k = Some v' \<and>
            v' \<noteq> JUndefined"
    if "map_of (errorThresholds h) k = Some v \<and> v \<noteq> JUndefined \<and>
        (\<forall>ov\<in>set overrides. (k, JUndefined) \<notin> set ov)"
    using that setErrorThresholds_all_defined [of h k v overrides] by blast
  have d2: "\<exists>w'. map_of (thresholds (setThresholds_all m overrides')) k' = Some w' \<and>
            w' \<noteq> JUndefined"
    if "map_of (thresholds m) k' = Some w \<and> w \<noteq> JUndefined \<and>
        (\<forall>ov\<in>set overrides'. (k', JUndefined) \<notin> set ov)"
    using that setThresholds_all_defined [of m k' w overrides'] by blast
  from e p m1 m2 d1 d2
    setErrorThresholds_all_keys [of h overrides] setThresholds_all_keys [of m overrides']
  show ?thesis by blast
qed

theorem C7_thresholds_stay_defined_witness:
  "errorThresholds (setErrorThresholds_all new_ErrorHandler
      [[(''critical'', JNum 2)], [(''fatal'', JNum 1), (''info'', JNum 50)]])
     = [(''critical'', JNum 2), (''warning'', JNum 10), (''info'', JNum 50), (''fatal'', JNum 1)] \<and>
   (\<exists>v'. map_of (errorThresholds (setErrorThresholds_all new_ErrorHandler
      [[(''critical'', JNum 2)], [(''fatal'', JNum 1), (''info'', JNum 50)]])) ''warning'' = Some v' \<and>
      v' \<noteq> JUndefined) \<and>
   thresholds (setThresholds_all new_PerformanceMonitor [[(''loginTime'', JNum 1)], []])
     = [(''pageLoadTime'', JNum 5000), (''apiResponseTime'', JNum 3000), (''loginTime'', JNum 1),
        (''memoryUsage'', JNum 104857600)]"
  using C7_thresholds_stay_defined [of new_ErrorHandler
      "[[(''critical'', JNum 2)], [(''fatal'', JNum 1), (''info'', JNum 50)]]" new_PerformanceMonitor
      "[[(''loginTime'', JNum 1)], []]" "[]" "''warning''" "JNum 10" "''loginTime''" "JNum 10000"]
  by (simp add: setErrorThresholds_all_def setErrorThresholds_def setThresholds_all_def
      setThresholds_def spread_def new_ErrorHandler_def new_PerformanceMonitor_def)



text \<open>
  C2, as stated: for every \<^verbatim>\<open>maxAttempts = N\<close> the operation is invoked at most \<open>N\<close>
  times. The first attempt is made before the counter is compared with \<open>N\<close>, so with
  \<open>N = 0\<close> an operation whose promise is rejected is still invoked once.
\<close>

theorem C2_zero_attempts_counterexample:
  "\<not> int (invocations (snd (snd (retryOperation
      \<lparr>iso = ''2024-01-01T00:00:00.000Z'', now = 1704067200000\<rparr>
      new_ErrorHandler ''save''
      (\<lambda>k. Rejects (JObj [(''message'', JStr ''boom'')]) :: nat outcome) 0 1000)))) \<le> 0"
  by (simp add: retryOperation_def attempt.simps retries_exhausted_def invocations_def
      attempt_started_def logError_def case_prod_beta)

text \<open>
  C2, amended: for every \<open>N\<close> and every operation, \<^verbatim>\<open>retryOperation\<close> invokes the
  operation \<open>m\<close> times for some \<open>m \<ge> 1\<close>, one call after the other: the promise of each
  of the calls \<open>1\<close> to \<open>m - 1\<close> was rejected, the call is followed by the informational
  retry log line and the timer that starts the next attempt, and nothing after the
  \<open>m\<close>-th call invokes the operation. For \<open>N \<ge> 1\<close>, \<open>m \<le> N\<close>; for \<open>N \<le> 0\<close>,
  \<open>m = 1\<close>. When \<open>N \<ge> 1\<close> and every attempt returns a promise that is rejected with an
  error (a value other than \<^verbatim>\<open>undefined\<close> and \<^verbatim>\<open>null\<close>), \<open>m = N\<close>, the returned promise
  is rejected with an error that names \<open>N\<close> and the message of the last rejection, and a
  \<^verbatim>\<open>RetryExhausted\<close> record is appended to the error log.
\<close>

theorem C2_retryOperation:
  fixes operation :: "nat \<Rightarrow> 'r outcome"
  shows "\<exists>m rest.
      1 \<le> m \<and>
      snd (snd (retryOperation clk h name operation n d)) =
        concat (map (failed_attempt n d) [1..<m]) @ attempt_started m n @ rest \<and>
      (\<forall>e\<in>set rest. \<not> is_Invoke e) \<and>
      (\<forall>k. 1 \<le> k \<and> k < m \<longrightarrow> (\<exists>e. operation k = Rejects e)) \<and>
      invocations (snd (snd (retryOperation clk h name operation n d))) = m \<and>
      (1 \<le> n \<longrightarrow> int m \<le> n) \<and>
      (n \<le> 0 \<longrightarrow> m = 1) \<and>
      (1 \<le> n \<and>
       (\<forall>k. 1 \<le> k \<and> int k \<le> n \<longrightarrow>
          (\<exists>e. operation k = Rejects e \<and> e \<noteq> JUndefined \<and> e \<noteq> JNull)) \<longrightarrow>
         int m = n \<and>
         (\<exists>e. operation m = Rejects e \<and>
            fst (retryOperation clk h name operation n d) =
              Failed (Error (''Operation failed after '' @ show_number n @ '' attempts: '' @
                             to_string (js_get e ''message''))) \<and>
            errorLog (fst (snd (retryOperation clk h name operation n d))) =
              errorLog h @ [retryError clk name m n e]))"
proof -
  from attempt_shape [of clk name operation n d 0 h] obtain m rest
    where run: "attempt_run clk name operation n d 0 h m rest"
    by blast
  from run have pos: "1 \<le> m" and bound: "int m \<le> n \<or> m = 1"
    by (auto simp: attempt_run_def)
  from bound have le: "int m \<le> n" if "1 \<le> n"
    using that by auto
  from bound pos have one: "m = 1" if "n \<le> 0"
    using that by auto
  from run have events: "snd (snd (retryOperation clk h name operation n d)) =
      concat (map (failed_attempt n d) [1..<m]) @ attempt_started m n @ rest"
    and rest: "\<forall>e\<in>set rest. \<not> is_Invoke e"
    and before: "\<forall>k. 1 \<le> k \<and> k < m \<longrightarrow> (\<exists>e. operation k = Rejects e)"
    by (simp_all add: attempt_run_def retryOperation_def)
  have count: "invocations (snd (snd (retryOperation clk h name operation n d))) = m"
    using pos
    by (simp add: events invocations_append invocations_failed invocations_started
        invocations_none [OF rest])
  have exhausted: "int m = n \<and>
      (\<exists>e. operation m = Rejects e \<and>
         fst (retryOperation clk h name operation n d) =
           Failed (Error (''Operation failed after '' @ show_number n @ '' attempts: '' @
                          to_string (js_get e ''message''))) \<and>
         errorLog (fst (snd (retryOperation clk h name operation n d))) =
           errorLog h @ [retryError clk name m n e])"
    if "1 \<le> n \<and>
      (\<forall>k. 1 \<le> k \<and> int k \<le> n \<longrightarrow>
         (\<exists>e. operation k = Rejects e \<and> e \<noteq> JUndefined \<and> e \<noteq> JNull))"
  proof -
    from that have n: "1 \<le> n" by simp
    from that pos le [OF n] obtain e
      where e: "operation m = Rejects e" and ok: "e \<noteq> JUndefined \<and> e \<noteq> JNull"
      by auto
    from run e have ge: "n \<le> int m"
      and outcome: "e \<noteq> JUndefined \<and> e \<noteq> JNull \<longrightarrow>
        fst (attempt clk name operation n d 0 h) =
          Failed (Error (''Operation failed after '' @ show_number n @ '' attempts: '' @
                         to_string (js_get e ''message''))) \<and>
        errorLog (fst (snd (attempt clk name operation n d 0 h))) =
          errorLog h @ [retryError clk name m n e]"
      by (simp_all add: attempt_run_def)
    from ge le [OF n] have "int m = n" by simp
    moreover from outcome ok have "fst (retryOperation clk h name operation n d) =
          Failed (Error (''Operation failed after '' @ show_number n @ '' attempts: '' @
                         to_string (js_get e ''message''))) \<and>
        errorLog (fst (snd (retryOperation clk h name operation n d))) =
          errorLog h @ [retryError clk name m n e]"
      by (simp only: retryOperation_def) blast
    ultimately show ?thesis using e by blast
  qed
  from pos events rest before count le one exhausted show ?thesis
    by blast
qed

theorem C2_retryOperation_witness:
  "int (invocations (snd (snd (retryOperation \<lparr>iso = ''2024-01-01T00:00:00.000Z'', now = 1704067200000\<rparr>
     new_ErrorHandler ''save''
     (\<lambda>k. Rejects (JObj [(''message'', JStr ''boom'')]) :: nat outcome) 2 1000)))) \<le> 2 \<and>
   retryOperation \<lparr>iso = ''2024-01-01T00:00:00.000Z'', now = 1704067200000\<rparr>
     new_ErrorHandler ''save''
     (\<lambda>k. Rejects (JObj [(''message'', JStr ''boom'')]) :: nat outcome) 2 1000
     = (Failed (Error ''Operation failed after 2 attempts: boom''),
        new_ErrorHandler\<lparr>errorLog :=
          [[(''type'', JStr ''RetryExhausted''), (''operation'', JStr ''save''),
            (''attempts'', JNum 2), (''maxRetries'', JNum 2),
            (''originalError'', JStr ''boom''),
            (''timestamp'', JStr ''2024-01-01T00:00:00.000Z'')]]\<rparr>,
        [LogInfo ''Retry attempt 1/2'' (JObj []), Invoke 1,
         LogInfo ''Retry attempt 1 failed, retrying in 1000ms'' (JObj []), SetTimeout 1000,
         LogInfo ''Retry attempt 2/2'' (JObj []), Invoke 2,
         LogError ''Retry attempts exhausted''
           (JObj [(''type'', JStr ''RetryExhausted''), (''operation'', JStr ''save''),
                  (''attempts'', JNum 2), (''maxRetries'', JNum 2),
                  (''originalError'', JStr ''boom''),
                  (''timestamp'', JStr ''2024-01-01T00:00:00.000Z'')]),
         TakeScreenshot ''retry_exhausted_1704067200000'']) \<and>
   retryOperation \<lparr>iso = ''2024-01-01T00:00:00.000Z'', now = 1704067200000\<rparr>
     new_ErrorHandler ''save''
     (\<lambda>k. if k < 2 then Rejects (JObj [(''message'', JStr ''flaky'')]) else Fulfils (7::nat)) 3 500
     = (Resolved 7, new_ErrorHandler,
        [LogInfo ''Retry attempt 1/3'' (JObj []), Invoke 1,
         LogInfo ''Retry attempt 1 failed, retrying in 500ms'' (JObj []), SetTimeout 500,
         LogInfo ''Retry attempt 2/3'' (JObj []), Invoke 2,
         LogInfo ''Operation succeeded on retry'' (JObj [(''attempts'', JNum 2)])]) \<and>
   invocations (snd (snd (retryOperation \<lparr>iso = ''2024-01-01T00:00:00.000Z'', now = 1704067200000\<rparr>
     new_ErrorHandler ''save''
     (\<lambda>k. Rejects (JObj [(''message'', JStr ''boom'')]) :: nat outcome) (- 1) 1000))) = 1"
proof -
  from C2_retryOperation [of "\<lparr>iso = ''2024-01-01T00:00:00.000Z'', now = 1704067200000\<rparr>"
      new_ErrorHandler "''save''" "\<lambda>k. Rejects (JObj [(''message'', JStr ''boom'')]) :: nat outcome"
      2 1000]
  have bound: "int (invocations (snd (snd (retryOperation
      \<lparr>iso = ''2024-01-01T00:00:00.000Z'', now = 1704067200000\<rparr>
      new_ErrorHandler ''save''
      (\<lambda>k. Rejects (JObj [(''message'', JStr ''boom'')]) :: nat outcome) 2 1000)))) \<le> 2"
    by auto
  from C2_retryOperation [of "\<lparr>iso = ''2024-01-01T00:00:00.000Z'', now = 1704067200000\<rparr>"
      new_ErrorHandler "''save''" "\<lambda>k. Rejects (JObj [(''message'', JStr ''boom'')]) :: nat outcome"
      "- 1" 1000]
  have once: "invocations (snd (snd (retryOperation
      \<lparr>iso = ''2024-01-01T00:00:00.000Z'', now = 1704067200000\<rparr>
      new_ErrorHandler ''save''
      (\<lambda>k. Rejects (JObj [(''message'', JStr ''boom'')]) :: nat outcome) (- 1) 1000))) = 1"
    by auto
  have run1: "retryOperation \<lparr>iso = ''2024-01-01T00:00:00.000Z'', now = 1704067200000\<rparr>
     new_ErrorHandler ''save''
     (\<lambda>k. Rejects (JObj [(''message'', JStr ''boom'')]) :: nat outcome) 2 1000
     = (Failed (Error ''Operation failed after 2 attempts: boom''),
        new_ErrorHandler\<lparr>errorLog :=
          [[(''type'', JStr ''RetryExhausted''), (''operation'', JStr ''save''),
            (''attempts'', JNum 2), (''maxRetries'', JNum 2),
            (''originalError'', JStr ''boom''),
            (''timestamp'', JStr ''2024-01-01T00:00:00.000Z'')]]\<rparr>,
        [LogInfo ''Retry attempt 1/2'' (JObj []), Invoke 1,
         LogInfo ''Retry attempt 1 failed, retrying in 1000ms'' (JObj []), SetTimeout 1000,
         LogInfo ''Retry attempt 2/2'' (JObj []), Invoke 2,
         LogError ''Retry attempts exhausted''
           (JObj [(''type'', JStr ''RetryExhausted''), (''operation'', JStr ''save''),
                  (''attempts'', JNum 2), (''maxRetries'', JNum 2),
                  (''originalError'', JStr ''boom''),
                  (''timestamp'', JStr ''2024-01-01T00:00:00.000Z'')]),
         TakeScreenshot ''retry_exhausted_1704067200000''])"
    by (simp add: retryOperation_def attempt.simps retries_exhausted_def retryError_def
        attempt_started_def attempt_retrying_def logError_def new_ErrorHandler_def js_ge_def
        show_number_def show_int_def show_nat.simps digit_char_def)
  have run2: "retryOperation \<lparr>iso = ''2024-01-01T00:00:00.000Z'', now = 1704067200000\<rparr>
     new_ErrorHandler ''save''
     (\<lambda>k. if k < 2 then Rejects (JObj [(''message'', JStr ''flaky'')]) else Fulfils (7::nat)) 3 500
     = (Resolved 7, new_ErrorHandler,
        [LogInfo ''Retry attempt 1/3'' (JObj []), Invoke 1,
         LogInfo ''Retry attempt 1 failed, retrying in 500ms'' (JObj []), SetTimeout 500,
         LogInfo ''Retry attempt 2/3'' (JObj []), Invoke 2,
         LogInfo ''Operation succeeded on retry'' (JObj [(''attempts'', JNum 2)])])"
    by (simp add: retryOperation_def attempt.simps
        attempt_started_def attempt_retrying_def attempt_succeeded_def
        show_number_def show_int_def show_nat.simps digit_char_def)
  from bound run1 run2 once show ?thesis
    by (intro conjI)
qed

text \<open>
  C9, as stated: when the login fails, \<^verbatim>\<open>apiRequest\<close> sends the underlying request without
  any \<^verbatim>\<open>Authorization\<close> header. The caller's own headers are spread into the request's
  headers, so a caller who passes an \<^verbatim>\<open>Authorization\<close> header has it sent, whatever the
  login answered: here the login answers 401 and the request still carries the caller's
  \<^verbatim>\<open>Bearer stale\<close>.
\<close>

theorem C9_caller_header_counterexample:
  "fst (apiLogin
      (\<lambda>s req. (Inr \<lparr>status = 401, statusText = JStr ''Unauthorized'', body = JObj [],
                       headers = JObj [], config = JUndefined, data = JUndefined\<rparr>, s))
      JUndefined () ''Admin'' ''admin123'')
   = Inr \<lparr>token = JNull,
          response = \<lparr>status = 401, statusText = JStr ''Unauthorized'', body = JObj [],
                       headers = JObj [], config = JUndefined, data = JUndefined\<rparr>\<rparr> \<and>
   map_of (req_headers (last (issued (snd (snd (apiRequest
      (\<lambda>s req. (Inr \<lparr>status = 401, statusText = JStr ''Unauthorized'', body = JObj [],
                       headers = JObj [], config = JUndefined, data = JUndefined\<rparr>, s))
      JUndefined ()
      \<lparr>opt_method = None, opt_url = ''/employee'', opt_body = JUndefined,
       opt_headers = Some [(''Authorization'', ''Bearer stale'')],
       opt_auth = JUndefined, opt_failOnStatusCode = None, opt_timeout = None\<rparr>)))))) ''Authorization''
   = Some ''Bearer stale''"
  by (simp add: apiLogin_def apiRequest_def cy_request_def login_request_def requestOptions_def
      spread_def js_or_def show_number_def show_int_def show_nat.simps digit_char_def)

text \<open>
  C9, amended: \<^verbatim>\<open>apiLogin\<close> does not raise on a failed authentication: for every answer
  whose status is neither 200 nor 201 it returns \<^verbatim>\<open>{ token: null, response }\<close>. With
  \<^verbatim>\<open>auth\<close> enabled, \<^verbatim>\<open>apiRequest\<close> then sends exactly two requests, the login and the
  underlying request as built from the options, and returns what the underlying request
  returns. It adds no \<^verbatim>\<open>Authorization\<close> header: the headers sent are the default
  \<^verbatim>\<open>Content-Type\<close> overridden by the caller's headers, so the request carries an
  \<^verbatim>\<open>Authorization\<close> header only if the caller passed one.
\<close>

theorem C9_failed_login_adds_no_header:
  assumes "srv s (login_request base ''Admin'' ''admin123'') = (Inr resp, s')"
    and "status resp \<noteq> 200" and "status resp \<noteq> 201"
    and "truthy (if opt_auth options = JUndefined then JBool True else opt_auth options)"
  shows "fst (apiLogin srv base s ''Admin'' ''admin123'') = Inr \<lparr>token = JNull, response = resp\<rparr> \<and>
         issued (snd (snd (apiRequest srv base s options))) =
           [login_request base ''Admin'' ''admin123'', requestOptions options] \<and>
         fst (apiRequest srv base s options) = fst (cy_request srv s' (requestOptions options)) \<and>
         req_headers (requestOptions options) =
           spread [(''Content-Type'', ''application/json'')]
             (case opt_headers options of None \<Rightarrow> [] | Some hs \<Rightarrow> hs) \<and>
         map_of (req_headers (requestOptions options)) ''Authorization'' =
           (case opt_headers options of None \<Rightarrow> None | Some hs \<Rightarrow> map_of (rev hs) ''Authorization'')"
proof -
  have login: "apiLogin srv base s ''Admin'' ''admin123'' =
    (Inr \<lparr>token = JNull, response = resp\<rparr>, s',
     [CyLog (''[API] Authenticating with username: '' @ ''Admin''),
      Request (login_request base ''Admin'' ''admin123''),
      TaskLog (''[API] Login response: '' @ show_number (status resp)),
      TaskLog ''[API] Authentication failed''])"
    using assms(1,2,3) by (rule apiLogin_failed [of srv s base "''Admin''" "''admin123''" resp s'])
  have l: "fst (apiLogin srv base s ''Admin'' ''admin123'') = Inr \<lparr>token = JNull, response = resp\<rparr>"
    by (simp add: login)
  have run: "apiRequest srv base s options =
      (fst (cy_request srv s' (requestOptions options)),
       fst (snd (cy_request srv s' (requestOptions options))),
       TaskLog (''[API] Making '' @ req_method (requestOptions options) @ '' request to: '' @
                opt_url options) #
       [CyLog (''[API] Authenticating with username: '' @ ''Admin''),
        Request (login_request base ''Admin'' ''admin123''),
        TaskLog (''[API] Login response: '' @ show_number (status resp)),
        TaskLog ''[API] Authentication failed''] @
       snd (snd (cy_request srv s' (requestOptions options))))"
    using assms(4) by (simp add: apiRequest_def Let_def login split: prod.splits)
  have i: "issued (snd (snd (apiRequest srv base s options))) =
           [login_request base ''Admin'' ''admin123'', requestOptions options]"
    by (simp add: run issued_append issued_cy_request)
  have r: "fst (apiRequest srv base s options) = fst (cy_request srv s' (requestOptions options))"
    by (simp add: run)
  have hd: "req_headers (requestOptions options) =
           spread [(''Content-Type'', ''application/json'')]
             (case opt_headers options of None \<Rightarrow> [] | Some hs \<Rightarrow> hs)"
    by (simp add: requestOptions_def)
  have a: "map_of (req_headers (requestOptions options)) ''Authorization'' =
           (case opt_headers options of None \<Rightarrow> None | Some hs \<Rightarrow> map_of (rev hs) ''Authorization'')"
    by (simp add: hd map_of_spread map_add_def split: option.splits)
  from l i r hd a show ?thesis by blast
qed

theorem C9_failed_login_adds_no_header_witness:
  "issued (snd (snd (apiRequest
      (\<lambda>s req. (Inr \<lparr>status = 401, statusText = JStr ''Unauthorized'', body = JObj [],
                       headers = JObj [], config = JUndefined, data = JUndefined\<rparr>, s))
      JUndefined ()
      \<lparr>opt_method = None, opt_url = ''/employee'', opt_body = JUndefined, opt_headers = None,
       opt_auth = JUndefined, opt_failOnStatusCode = None, opt_timeout = None\<rparr>)))
   = [login_request JUndefined ''Admin'' ''admin123'',
      \<lparr>req_method = ''GET'', req_url = ''/employee'',
       req_headers = [(''Content-Type'', ''application/json'')], req_body = None,
       req_failOnStatusCode = False, req_timeout = Some 10000\<rparr>]"
  using C9_failed_login_adds_no_header [of
      "\<lambda>s req. (Inr \<lparr>status = 401, statusText = JStr ''Unauthorized'', body = JObj [],
                       headers = JObj [], config = JUndefined, data = JUndefined\<rparr>, s)"
      "()" JUndefined
      "\<lparr>status = 401, statusText = JStr ''Unauthorized'', body = JObj [],
        headers = JObj [], config = JUndefined, data = JUndefined\<rparr>"
      "()"
      "\<lparr>opt_method = None, opt_url = ''/employee'', opt_body = JUndefined, opt_headers = None,
        opt_auth = JUndefined, opt_failOnStatusCode = None, opt_timeout = None\<rparr>"]
  by (simp add: requestOptions_def spread_def)

text \<open>
  C1: \<^verbatim>\<open>monitorConcurrentRequests\<close> with five factories and \<^verbatim>\<open>maxConcurrent = 2\<close> forms
  the batches of sizes 2, 2 and 1, in order. It does not hold the later batches back: the
  loop calls the factories of all three batches before it returns, and the promises can only
  settle after that, so the operations of the second batch (and of the third) are started
  before those of the first have settled.
\<close>

theorem C1_batches_started_eagerly:
  "monitorConcurrentRequests value [0, 1, 2, 3, 4 :: nat] 2 =
     Some \<lparr>results = [value 0, value 1, value 2, value 3, value 4],
           batches = [[0, 1], [2, 3], [4]],
           trace = [Started 0, Started 1, Started 2, Started 3, Started 4,
                    Settled 0, Settled 1, Settled 2, Settled 3, Settled 4]\<rparr> \<and>
   position (Started 2)
     [Started 0, Started 1, Started 2, Started 3, Started 4,
      Settled 0, Settled 1, Settled 2, Settled 3, Settled 4 :: nat request_event]
   < position (Settled 0)
     [Started 0, Started 1, Started 2, Started 3, Started 4,
      Settled 0, Settled 1, Settled 2, Settled 3, Settled 4 :: nat request_event]"
  by (simp add: monitorConcurrentRequests_def start_batches.simps await_batch_def position_def)

end
